theory Spec2Isabelle
  imports Main
begin

section \<open>JavaScript strings\<close>

text \<open>
  A JavaScript string is modelled as a \<^typ>\<open>string\<close> whose characters are the code
  points 0 to 255 (Latin-1).  In that range \<^verbatim>\<open>String.prototype.trim\<close> and the
  regular-expression class \<^verbatim>\<open>\s\<close> treat exactly the code points 9 to 13, 32 and
  160 as white space, and \<^verbatim>\<open>toLowerCase\<close> maps A..Z and the accented capitals
  192..222 (without the multiplication sign 215) to the code point 32 above.
\<close>

definition isWhiteSpace :: "char \<Rightarrow> bool" where
  "isWhiteSpace c = (of_char c \<in> {9, 10, 11, 12, 13, 32, 160 :: nat})"

definition toLowerChar :: "char \<Rightarrow> char" where
  "toLowerChar c =
     (let n = of_char c :: nat
      in if (65 \<le> n \<and> n \<le> 90) \<or> (192 \<le> n \<and> n \<le> 222 \<and> n \<noteq> 215)
         then char_of (n + 32) else c)"

definition toLowerCase :: "string \<Rightarrow> string" where
  "toLowerCase s = map toLowerChar s"

definition trim :: "string \<Rightarrow> string" where
  "trim s = rev (dropWhile isWhiteSpace (rev (dropWhile isWhiteSpace s)))"

text \<open>\<^verbatim>\<open>s.includes(sub)\<close>: \<open>sub\<close> occurs in \<open>s\<close> as a contiguous substring.\<close>

fun str_includes :: "string \<Rightarrow> string \<Rightarrow> bool" where
  "str_includes [] sub = (sub = [])"
| "str_includes (c # cs) sub = (take (length sub) (c # cs) = sub \<or> str_includes cs sub)"

text \<open>
  \<^verbatim>\<open>/^[^\s@]+@[^\s@]+\.[^\s@]+$/.test(s)\<close>.  The first class cannot match \<^verbatim>\<open>@\<close>, so
  the literal \<^verbatim>\<open>@\<close> of the pattern is the first character of \<open>s\<close> outside the class;
  what follows it consists of class characters only and has a dot that is neither its
  first nor its last character.
\<close>

definition emailClass :: "char \<Rightarrow> bool" where
  "emailClass c = (\<not> isWhiteSpace c \<and> c \<noteq> CHR ''@'')"

definition emailRegex_test :: "string \<Rightarrow> bool" where
  "emailRegex_test s =
     (takeWhile emailClass s \<noteq> [] \<and>
      (case dropWhile emailClass s of
         [] \<Rightarrow> False
       | c # rest \<Rightarrow>
           c = CHR ''@'' \<and> list_all emailClass rest \<and> CHR ''.'' \<in> set (butlast (tl rest))))"

section \<open>Documents\<close>

text \<open>
  Times are milliseconds since the epoch.  A field that a document may lack
  (\<^verbatim>\<open>first_scan_date\<close>, \<^verbatim>\<open>marked_manually\<close>) is an option; a \<^verbatim>\<open>Date\<close> object is
  always truthy, so \<^verbatim>\<open>!member.first_scan_date\<close> holds exactly for \<open>None\<close>.
\<close>

record member =
  m_id :: string
  m_name :: string
  m_email :: string
  m_phone :: string
  m_address :: string
  m_created_at :: nat
  first_scan_date :: "nat option"

record session =
  s_id :: string
  session_name :: string
  session_date :: string
  qr_data :: string
  is_active :: int
  s_created_at :: nat

record attendance =
  r_id :: string
  session_id :: string
  member_id :: string
  is_first_time :: bool
  scan_time :: nat
  is_present :: bool
  marked_manually :: "bool option"

text \<open>The projection returned by \<^verbatim>\<open>GET /api/attendance/current\<close>.\<close>

record presence =
  p_id :: string
  p_name :: string
  p_email :: string
  p_phone :: string
  p_is_present :: bool
  p_scan_time :: nat
  p_is_first_time :: bool
  p_marked_manually :: "bool option"

text \<open>A thrown error object: its \<^verbatim>\<open>message\<close> and its \<^verbatim>\<open>code\<close>, when it has one.\<close>

record exn =
  message :: string
  code :: "nat option"

section \<open>The two backends\<close>

text \<open>
  \<^verbatim>\<open>fallbackStorage\<close> holds three \<^verbatim>\<open>Map\<close>s, kept here as association lists in
  insertion order, \<^verbatim>\<open>activeSessionId\<close> and the flag \<^verbatim>\<open>usingFallback\<close>.  The three
  MongoDB collections are lists of documents in insertion order.  Every database
  function branches on \<^verbatim>\<open>database && !fallbackStorage.usingFallback\<close>; once start-up is
  over \<^verbatim>\<open>database\<close> is null only if the flag is set, and no request handler assigns the
  flag, so the branch is decided by \<open>usingFallback\<close>.
\<close>

record store =
  usingFallback :: bool
  activeSessionId :: "string option"
  fb_members :: "(string \<times> member) list"
  fb_sessions :: "(string \<times> session) list"
  fb_attendance :: "(string \<times> attendance) list"
  db_members :: "member list"
  db_sessions :: "session list"
  db_records :: "attendance list"

definition emptyStore :: "bool \<Rightarrow> store" where
  "emptyStore fb =
     \<lparr>usingFallback = fb, activeSessionId = None, fb_members = [], fb_sessions = [],
      fb_attendance = [], db_members = [], db_sessions = [], db_records = []\<rparr>"

subsection \<open>JavaScript \<^verbatim>\<open>Map\<close>\<close>

definition Map_get :: "string \<Rightarrow> (string \<times> 'v) list \<Rightarrow> 'v option" where
  "Map_get k m = map_of m k"

text \<open>\<^verbatim>\<open>set\<close> replaces the value of a present key where it stands and appends a new key.\<close>

fun Map_set :: "string \<Rightarrow> 'v \<Rightarrow> (string \<times> 'v) list \<Rightarrow> (string \<times> 'v) list" where
  "Map_set k v [] = [(k, v)]"
| "Map_set k v (p # ps) = (if fst p = k then (k, v) # ps else p # Map_set k v ps)"

definition Map_has :: "string \<Rightarrow> (string \<times> 'v) list \<Rightarrow> bool" where
  "Map_has k m = (k \<in> set (map fst m))"

definition Map_delete :: "string \<Rightarrow> (string \<times> 'v) list \<Rightarrow> (string \<times> 'v) list" where
  "Map_delete k m = filter (\<lambda>p. fst p \<noteq> k) m"

definition Map_values :: "(string \<times> 'v) list \<Rightarrow> 'v list" where
  "Map_values m = map snd m"

subsection \<open>MongoDB collections\<close>

text \<open>
  \<^verbatim>\<open>findOne\<close> is \<^const>\<open>find\<close>, \<^verbatim>\<open>countDocuments\<close> the length of a \<^const>\<open>filter\<close>,
  \<^verbatim>\<open>updateMany({}, u)\<close> a \<^const>\<open>map\<close>.  \<^verbatim>\<open>updateOne\<close> changes the first match,
  \<^verbatim>\<open>deleteOne\<close> removes it.  \<^verbatim>\<open>insertOne\<close> appends, unless a unique index declared by
  \<^verbatim>\<open>initializeDatabase\<close> already holds the key, which raises error code 11000.
\<close>

fun updateOne :: "('a \<Rightarrow> bool) \<Rightarrow> ('a \<Rightarrow> 'a) \<Rightarrow> 'a list \<Rightarrow> 'a list" where
  "updateOne P f [] = []"
| "updateOne P f (x # xs) = (if P x then f x # xs else x # updateOne P f xs)"

fun deleteOne :: "('a \<Rightarrow> bool) \<Rightarrow> 'a list \<Rightarrow> 'a list" where
  "deleteOne P [] = []"
| "deleteOne P (x # xs) = (if P x then xs else x # deleteOne P xs)"

definition duplicateKey :: exn where
  "duplicateKey = \<lparr>message = ''E11000 duplicate key error'', code = Some 11000\<rparr>"

definition insertOne_members :: "member \<Rightarrow> member list \<Rightarrow> exn + member list" where
  "insertOne_members d ds =
     (if m_id d \<in> set (map m_id ds) \<or> m_email d \<in> set (map m_email ds)
      then Inl duplicateKey else Inr (ds @ [d]))"

definition insertOne_sessions :: "session \<Rightarrow> session list \<Rightarrow> exn + session list" where
  "insertOne_sessions d ds =
     (if s_id d \<in> set (map s_id ds) then Inl duplicateKey else Inr (ds @ [d]))"

definition insertOne_records :: "attendance \<Rightarrow> attendance list \<Rightarrow> exn + attendance list" where
  "insertOne_records d ds =
     (if (session_id d, member_id d) \<in> set (map (\<lambda>r. (session_id r, member_id r)) ds)
      then Inl duplicateKey else Inr (ds @ [d]))"

section \<open>database.js\<close>

definition getMembers :: "store \<Rightarrow> member list" where
  "getMembers st =
     (if \<not> usingFallback st then db_members st else Map_values (fb_members st))"

definition checkEmailExists :: "store \<Rightarrow> string \<Rightarrow> bool" where
  "checkEmailExists st email =
     (let normalizedEmail = toLowerCase (trim email)
      in if \<not> usingFallback st
         then find (\<lambda>m. m_email m = normalizedEmail) (db_members st) \<noteq> None
         else list_ex (\<lambda>m. toLowerCase (m_email m) = normalizedEmail)
                (Map_values (fb_members st)))"

definition alreadyExistsMessage :: string where
  "alreadyExistsMessage = ''A member with this email address already exists''"

definition addMember :: "store \<Rightarrow> member \<Rightarrow> exn + (store \<times> member)" where
  "addMember st memberData =
     (let normalizedEmail = toLowerCase (trim (m_email memberData))
      in if checkEmailExists st normalizedEmail
         then Inl \<lparr>message = alreadyExistsMessage, code = Some 11000\<rparr>
         else
           let normalizedMemberData = memberData\<lparr>m_email := normalizedEmail\<rparr>
           in if \<not> usingFallback st
              then (case insertOne_members normalizedMemberData (db_members st) of
                      Inl e \<Rightarrow>
                        (if code e = Some 11000
                         then Inl \<lparr>message = alreadyExistsMessage, code = None\<rparr>
                         else Inl e)
                    | Inr ds \<Rightarrow> Inr (st\<lparr>db_members := ds\<rparr>, normalizedMemberData))
              else Inr (st\<lparr>fb_members :=
                            Map_set (m_id normalizedMemberData) normalizedMemberData
                              (fb_members st)\<rparr>,
                        normalizedMemberData))"

text \<open>The second component is \<^verbatim>\<open>deletedCount\<close>.\<close>

definition deleteMember :: "store \<Rightarrow> string \<Rightarrow> store \<times> nat" where
  "deleteMember st memberId =
     (if \<not> usingFallback st
      then (st\<lparr>db_members := deleteOne (\<lambda>m. m_id m = memberId) (db_members st)\<rparr>,
            if find (\<lambda>m. m_id m = memberId) (db_members st) \<noteq> None then 1 else 0)
      else (st\<lparr>fb_members := Map_delete memberId (fb_members st)\<rparr>,
            if Map_has memberId (fb_members st) then 1 else 0))"

text \<open>
  The error of a rejected \<^verbatim>\<open>insertOne\<close> leaves the deactivation done by
  \<^verbatim>\<open>updateMany\<close> in place, so the store is returned in both cases.
\<close>

definition createSession :: "store \<Rightarrow> session \<Rightarrow> store \<times> exn option" where
  "createSession st sessionData =
     (if \<not> usingFallback st
      then
        let deactivated = map (\<lambda>s. s\<lparr>is_active := 0\<rparr>) (db_sessions st)
        in (case insertOne_sessions sessionData deactivated of
              Inl e \<Rightarrow> (st\<lparr>db_sessions := deactivated\<rparr>, Some e)
            | Inr ds \<Rightarrow> (st\<lparr>db_sessions := ds\<rparr>, None))
      else
        (st\<lparr>fb_sessions :=
               Map_set (s_id sessionData) sessionData
                 (map (\<lambda>(k, s). (k, s\<lparr>is_active := 0\<rparr>)) (fb_sessions st)),
             activeSessionId := Some (s_id sessionData)\<rparr>,
         None))"

text \<open>\<^verbatim>\<open>if (fallbackStorage.activeSessionId)\<close> is false for null and for the empty string.\<close>

definition getActiveSession :: "store \<Rightarrow> session option" where
  "getActiveSession st =
     (if \<not> usingFallback st
      then find (\<lambda>s. is_active s = 1) (db_sessions st)
      else (case activeSessionId st of
              None \<Rightarrow> None
            | Some a \<Rightarrow>
                if a = [] then None
                else (case Map_get a (fb_sessions st) of
                        None \<Rightarrow> None
                      | Some s \<Rightarrow> if is_active s = 1 then Some s else None)))"

definition getSession :: "store \<Rightarrow> string \<Rightarrow> session option" where
  "getSession st sessionId =
     (if \<not> usingFallback st
      then find (\<lambda>s. s_id s = sessionId \<and> is_active s = 1) (db_sessions st)
      else (case Map_get sessionId (fb_sessions st) of
              None \<Rightarrow> None
            | Some s \<Rightarrow> if is_active s = 1 then Some s else None))"

definition getMember :: "store \<Rightarrow> string \<Rightarrow> member option" where
  "getMember st memberId =
     (if \<not> usingFallback st
      then find (\<lambda>m. m_id m = memberId) (db_members st)
      else Map_get memberId (fb_members st))"

text \<open>The key of the fallback attendance map: \<^verbatim>\<open>`${sessionId}-${memberId}`\<close>.\<close>

definition attendanceKey :: "string \<Rightarrow> string \<Rightarrow> string" where
  "attendanceKey sessionId memberId = sessionId @ ''-'' @ memberId"

definition getAttendanceRecord :: "store \<Rightarrow> string \<Rightarrow> string \<Rightarrow> attendance option" where
  "getAttendanceRecord st sessionId memberId =
     (if \<not> usingFallback st
      then find (\<lambda>r. session_id r = sessionId \<and> member_id r = memberId) (db_records st)
      else Map_get (attendanceKey sessionId memberId) (fb_attendance st))"

definition countMemberAttendance :: "store \<Rightarrow> string \<Rightarrow> nat" where
  "countMemberAttendance st memberId =
     (if \<not> usingFallback st
      then length (filter (\<lambda>r. member_id r = memberId) (db_records st))
      else length (filter (\<lambda>r. member_id r = memberId) (Map_values (fb_attendance st))))"

text \<open>
  The MongoDB branch sets the date with \<^verbatim>\<open>$set\<close> whatever the document holds; the
  fallback branch writes it only into a member that has none.
\<close>

definition updateMemberFirstScan :: "store \<Rightarrow> nat \<Rightarrow> string \<Rightarrow> store" where
  "updateMemberFirstScan st now memberId =
     (if \<not> usingFallback st
      then st\<lparr>db_members :=
                updateOne (\<lambda>m. m_id m = memberId) (\<lambda>m. m\<lparr>first_scan_date := Some now\<rparr>)
                  (db_members st)\<rparr>
      else (case Map_get memberId (fb_members st) of
              None \<Rightarrow> st
            | Some m \<Rightarrow>
                if first_scan_date m = None
                then st\<lparr>fb_members :=
                          Map_set memberId (m\<lparr>first_scan_date := Some now\<rparr>) (fb_members st)\<rparr>
                else st))"

definition addAttendanceRecord :: "store \<Rightarrow> attendance \<Rightarrow> exn + store" where
  "addAttendanceRecord st recordData =
     (if \<not> usingFallback st
      then (case insertOne_records recordData (db_records st) of
              Inl e \<Rightarrow> Inl e
            | Inr ds \<Rightarrow> Inr (st\<lparr>db_records := ds\<rparr>))
      else Inr (st\<lparr>fb_attendance :=
                    Map_set (attendanceKey (session_id recordData) (member_id recordData))
                      recordData (fb_attendance st)\<rparr>))"

section \<open>routes.js\<close>

text \<open>
  A response is its status with the fields of the JSON body that depend on the store.
  Identifiers from \<^verbatim>\<open>uuidv4()\<close>, the clock (\<^verbatim>\<open>new Date()\<close>, one reading \<open>now\<close> for a
  request), the day string of a new session and the base address of the scan URL come
  from outside and are arguments of the handlers.  The QR image is rendered by an
  external library from \<open>qrData\<close>; the rendering is taken to succeed and the image is
  not part of the response here.
\<close>

datatype response =
    Failure nat string
  | FailureWithCode nat string string
  | MemberAdded member
  | MemberDeleted
  | SessionCreated string string string string
  | AttendanceMarked string bool string
  | AttendanceList "presence list"
  | Statistics nat nat nat

text \<open>The errors of the specification, as the handlers send them.\<close>

definition SessionNotActive :: response where
  "SessionNotActive = Failure 400 ''Session is not active''"

definition MemberNotFound :: response where
  "MemberNotFound = Failure 404 ''Member not found''"

definition AlreadyMarked :: response where
  "AlreadyMarked = Failure 400 ''Attendance already marked for this session''"


text \<open>\<^verbatim>\<open>phone ? phone.trim() : ''\<close> for an optional field of the body.\<close>

definition cleanOptional :: "string option \<Rightarrow> string" where
  "cleanOptional v = (case v of None \<Rightarrow> [] | Some p \<Rightarrow> if p = [] then [] else trim p)"

text \<open>\<^verbatim>\<open>POST /api/members\<close>: the operation \<open>registerMember\<close>.\<close>

definition post_api_members ::
  "store \<Rightarrow> string \<Rightarrow> nat \<Rightarrow> string \<Rightarrow> string \<Rightarrow> string option \<Rightarrow> string option
     \<Rightarrow> store \<times> response" where
  "post_api_members st uuid now name email phone address =
     (if name = [] \<or> email = [] then (st, Failure 400 ''Name and email are required'')
      else
        let cleanName = trim name;
            cleanEmail = toLowerCase (trim email);
            cleanPhone = cleanOptional phone;
            cleanAddress = cleanOptional address
        in if \<not> emailRegex_test cleanEmail
           then (st, Failure 400 ''Please enter a valid email address'')
           else if checkEmailExists st cleanEmail
           then (st, FailureWithCode 409
                       (''A member with email '' @ [CHR 0x22] @ cleanEmail @ [CHR 0x22] @
                        '' already exists. Please use a different email address.'')
                       ''EMAIL_EXISTS'')
           else
             let newMember =
                   \<lparr>m_id = uuid, m_name = cleanName, m_email = cleanEmail,
                    m_phone = cleanPhone, m_address = cleanAddress, m_created_at = now,
                    first_scan_date = None\<rparr>
             in (case addMember st newMember of
                   Inl e \<Rightarrow>
                     (st,
                      if str_includes (message e) ''already exists'' \<or> code e = Some 11000
                      then FailureWithCode 409
                             ''A member with this email address already exists. Please use a different email address.''
                             ''EMAIL_EXISTS''
                      else Failure 500 ''Failed to add member. Please try again.'')
                 | Inr (st', result) \<Rightarrow> (st', MemberAdded result)))"

text \<open>\<^verbatim>\<open>DELETE /api/members/:id\<close>.\<close>

definition delete_api_members :: "store \<Rightarrow> string \<Rightarrow> store \<times> response" where
  "delete_api_members st ident =
     (let (st', deletedCount) = deleteMember st ident
      in if deletedCount = 0 then (st', Failure 404 ''Member not found'')
         else (st', MemberDeleted))"

text \<open>\<^verbatim>\<open>POST /api/sessions\<close>: the operation \<open>createSession\<close>.\<close>

definition post_api_sessions ::
  "store \<Rightarrow> string \<Rightarrow> nat \<Rightarrow> string \<Rightarrow> string \<Rightarrow> string \<Rightarrow> store \<times> response" where
  "post_api_sessions st uuid now sessionDate baseUrl sessionName =
     (if sessionName = [] then (st, Failure 400 ''Session name is required'')
      else
        let sessionId = uuid;
            qrData = baseUrl @ ''/scan/'' @ sessionId;
            newSession =
              \<lparr>s_id = sessionId, session_name = sessionName, session_date = sessionDate,
               qr_data = qrData, is_active = 1, s_created_at = now\<rparr>
        in (case createSession st newSession of
              (st', Some e) \<Rightarrow> (st', Failure 500 ''Failed to create session'')
            | (st', None) \<Rightarrow>
                (st', SessionCreated sessionId sessionName sessionDate qrData)))"

text \<open>
  The part that \<^verbatim>\<open>POST /api/attendance\<close> and \<^verbatim>\<open>POST /api/attendance/manual\<close> share
  once the member is found: the check for an existing record, the first-time flag, the
  first-scan date and the insertion.
\<close>

definition recordAttendance ::
  "store \<Rightarrow> string \<Rightarrow> nat \<Rightarrow> string \<Rightarrow> string \<Rightarrow> bool option \<Rightarrow> (bool \<Rightarrow> string) \<Rightarrow> string
     \<Rightarrow> store \<times> response" where
  "recordAttendance st uuid now sessionId memberId manual messageFor failed =
     (case getAttendanceRecord st sessionId memberId of
        Some existingRecord \<Rightarrow> (st, Failure 400 ''Attendance already marked for this session'')
      | None \<Rightarrow>
          let attendanceCount = countMemberAttendance st memberId;
              isFirstTime = (attendanceCount = 0);
              st1 = (if isFirstTime then updateMemberFirstScan st now memberId else st);
              attendanceRecord =
                \<lparr>r_id = uuid, session_id = sessionId, member_id = memberId,
                 is_first_time = isFirstTime, scan_time = now, is_present = True,
                 marked_manually = manual\<rparr>
          in (case addAttendanceRecord st1 attendanceRecord of
                Inl e \<Rightarrow> (st1, Failure 500 failed)
              | Inr st2 \<Rightarrow> (st2, AttendanceMarked (messageFor isFirstTime) isFirstTime uuid)))"

text \<open>\<^verbatim>\<open>POST /api/attendance\<close>: the operation \<open>markAttendance\<close> of a scan.\<close>

definition post_api_attendance ::
  "store \<Rightarrow> string \<Rightarrow> nat \<Rightarrow> string \<Rightarrow> string \<Rightarrow> store \<times> response" where
  "post_api_attendance st uuid now sessionId memberId =
     (if sessionId = [] \<or> memberId = []
      then (st, Failure 400 ''Session ID and Member ID are required'')
      else
        (case getSession st sessionId of
           None \<Rightarrow> (st, Failure 400 ''Session is not active'')
         | Some activeSession \<Rightarrow>
             (case getMember st memberId of
                None \<Rightarrow> (st, Failure 404 ''Member not found'')
              | Some member \<Rightarrow>
                  recordAttendance st uuid now sessionId memberId None
                    (\<lambda>isFirstTime.
                       if isFirstTime
                       then ''Welcome '' @ m_name member @ ''! First time attendance recorded.''
                       else ''Attendance marked for '' @ m_name member @ ''!'')
                    ''Failed to mark attendance'')))"

text \<open>\<^verbatim>\<open>POST /api/attendance/manual\<close>: the operation \<open>markAttendance\<close> of an organizer.\<close>

definition post_api_attendance_manual ::
  "store \<Rightarrow> string \<Rightarrow> nat \<Rightarrow> string \<Rightarrow> store \<times> response" where
  "post_api_attendance_manual st uuid now memberId =
     (if memberId = [] then (st, Failure 400 ''Member ID is required'')
      else
        (case getActiveSession st of
           None \<Rightarrow> (st, Failure 400 ''No active session found'')
         | Some activeSession \<Rightarrow>
             (case getMember st memberId of
                None \<Rightarrow> (st, Failure 404 ''Member not found'')
              | Some member \<Rightarrow>
                  recordAttendance st uuid now (s_id activeSession) memberId (Some True)
                    (\<lambda>isFirstTime. m_name member @ '' marked present manually!'')
                    ''Failed to mark attendance manually'')))"

text \<open>
  \<^verbatim>\<open>GET /api/attendance/current\<close>: the operation \<open>currentAttendanceReport\<close>.  Both branches
  sort by \<^verbatim>\<open>scan_time\<close>, latest first; \<^verbatim>\<open>Array.prototype.sort\<close> is stable, and so is
  \<^const>\<open>sort_key\<close> on the negated time.  \<^verbatim>\<open>$lookup\<close> collects the members whose \<^verbatim>\<open>id\<close> is
  the record's \<^verbatim>\<open>member_id\<close> and \<^verbatim>\<open>$unwind\<close> yields one document for each of them, none
  when there is no such member.
\<close>

definition sortByScanTimeDesc :: "presence list \<Rightarrow> presence list" where
  "sortByScanTimeDesc rows = sort_key (\<lambda>p. - int (p_scan_time p)) rows"

definition get_api_attendance_current :: "store \<Rightarrow> response" where
  "get_api_attendance_current st =
     (if \<not> usingFallback st
      then (case find (\<lambda>s. is_active s = 1) (db_sessions st) of
              None \<Rightarrow> AttendanceList []
            | Some activeSession \<Rightarrow>
                AttendanceList (sortByScanTimeDesc
                  (concat (map
                     (\<lambda>r. map (\<lambda>m. \<lparr>p_id = m_id m, p_name = m_name m, p_email = m_email m,
                                    p_phone = m_phone m, p_is_present = is_present r,
                                    p_scan_time = scan_time r,
                                    p_is_first_time = is_first_time r,
                                    p_marked_manually = marked_manually r\<rparr>)
                            (filter (\<lambda>m. m_id m = member_id r) (db_members st)))
                     (filter (\<lambda>r. session_id r = s_id activeSession) (db_records st))))))
      else (case getActiveSession st of
              None \<Rightarrow> AttendanceList []
            | Some activeSession \<Rightarrow>
                AttendanceList (sortByScanTimeDesc
                  (concat (map
                     (\<lambda>r. if session_id r = s_id activeSession
                          then (case Map_get (member_id r) (fb_members st) of
                                  None \<Rightarrow> []
                                | Some m \<Rightarrow>
                                    [\<lparr>p_id = m_id m, p_name = m_name m, p_email = m_email m,
                                      p_phone = m_phone m, p_is_present = is_present r,
                                      p_scan_time = scan_time r,
                                      p_is_first_time = is_first_time r,
                                      p_marked_manually =
                                        Some (case marked_manually r of
                                                None \<Rightarrow> False | Some b \<Rightarrow> b)\<rparr>])
                          else [])
                     (Map_values (fb_attendance st)))))))"

text \<open>
  \<^verbatim>\<open>GET /api/sessions/:sessionId/stats\<close>: the operation \<open>sessionStatistics\<close>.  The
  \<^verbatim>\<open>$group\<close> stage yields no document when nothing matches, and the handler then
  answers with zeros.
\<close>

definition get_api_sessions_stats :: "store \<Rightarrow> string \<Rightarrow> response" where
  "get_api_sessions_stats st sessionId =
     (if \<not> usingFallback st
      then
        let matched = filter (\<lambda>r. session_id r = sessionId) (db_records st);
            totalMembers = length (db_members st)
        in if matched = [] then Statistics 0 0 totalMembers
           else Statistics (length matched) (length (filter is_first_time matched)) totalMembers
      else
        let (totalPresent, firstTimeCount) =
              fold (\<lambda>r (tp, fc).
                      if session_id r = sessionId
                      then (tp + 1, if is_first_time r then fc + 1 else fc)
                      else (tp, fc))
                (Map_values (fb_attendance st)) (0, 0)
        in Statistics totalPresent firstTimeCount (length (fb_members st)))"

section \<open>Sequential execution\<close>

text \<open>
  The requests that the claims are about.  The other handlers
  (\<^verbatim>\<open>/health\<close>, the \<^verbatim>\<open>GET\<close> lists, \<^verbatim>\<open>/api/check-email\<close>) read only, and
  \<^verbatim>\<open>/api/fix-database\<close> touches an index and a field that the model does not hold.
\<close>

datatype request =
    PostMember string nat string string "string option" "string option"
  | DeleteMember string
  | PostSession string nat string string string
  | PostAttendance string nat string string
  | PostAttendanceManual string nat string
  | GetAttendanceCurrent
  | GetSessionStats string

fun step :: "store \<Rightarrow> request \<Rightarrow> store \<times> response" where
  "step st (PostMember uuid now name email phone address) =
     post_api_members st uuid now name email phone address"
| "step st (DeleteMember ident) = delete_api_members st ident"
| "step st (PostSession uuid now sessionDate baseUrl sessionName) =
     post_api_sessions st uuid now sessionDate baseUrl sessionName"
| "step st (PostAttendance uuid now sessionId memberId) =
     post_api_attendance st uuid now sessionId memberId"
| "step st (PostAttendanceManual uuid now memberId) =
     post_api_attendance_manual st uuid now memberId"
| "step st GetAttendanceCurrent = (st, get_api_attendance_current st)"
| "step st (GetSessionStats sessionId) = (st, get_api_sessions_stats st sessionId)"

text \<open>The stores that requests handled one after the other produce from an empty store.\<close>

inductive reachable :: "store \<Rightarrow> bool" where
  empty: "reachable (emptyStore fb)"
| request: "reachable st \<Longrightarrow> reachable (fst (step st r))"

text \<open>All sessions and all attendance records of the backend in use, in insertion order.\<close>

definition allSessions :: "store \<Rightarrow> session list" where
  "allSessions st =
     (if \<not> usingFallback st then db_sessions st else Map_values (fb_sessions st))"

definition allRecords :: "store \<Rightarrow> attendance list" where
  "allRecords st =
     (if \<not> usingFallback st then db_records st else Map_values (fb_attendance st))"

text \<open>
  The fallback maps live in the process and start empty, and their only writers are the
  functions above: every map is keyed by what its writer uses as key, and a session
  flagged active is the one \<open>activeSessionId\<close> names.
\<close>

definition fallbackKeyed :: "store \<Rightarrow> bool" where
  "fallbackKeyed st =
     (usingFallback st \<longrightarrow>
        list_all (\<lambda>(k, m). m_id m = k) (fb_members st) \<and>
        list_all (\<lambda>(k, s). s_id s = k \<and> (is_active s = 1 \<longrightarrow> activeSessionId st = Some k))
          (fb_sessions st) \<and>
        list_all (\<lambda>(k, r). k = attendanceKey (session_id r) (member_id r))
          (fb_attendance st))"

text \<open>
  What requests handled one after the other, none cut short by a store error, keep true
  of a store: the fallback maps are keyed as above; in MongoDB member ids are distinct
  (the unique index), at most one session is flagged active, and a member with a
  first-scan date has an attendance record.
\<close>

definition wf_store :: "store \<Rightarrow> bool" where
  "wf_store st =
     (if usingFallback st
      then list_all (\<lambda>(k, m). m_id m = k) (fb_members st) \<and>
           list_all (\<lambda>(k, s). s_id s = k \<and> (is_active s = 1 \<longrightarrow> activeSessionId st = Some k))
             (fb_sessions st) \<and>
           list_all (\<lambda>(k, r). k = attendanceKey (session_id r) (member_id r))
             (fb_attendance st)
      else distinct (map m_id (db_members st)) \<and>
           length (filter (\<lambda>s. is_active s = 1) (db_sessions st)) \<le> 1 \<and>
           list_all (\<lambda>m. first_scan_date m \<noteq> None \<longrightarrow>
                          m_id m \<in> set (map member_id (db_records st)))
             (db_members st))"

section \<open>Example stores\<close>

text \<open>
  One member and one active session, in the fallback and in MongoDB: the stores that the
  scenario of the specification reaches from an empty store.
\<close>

definition ada :: member where
  "ada = \<lparr>m_id = ''m1'', m_name = ''Ada Lovelace'', m_email = ''ada@x.com'', m_phone = [],
          m_address = [], m_created_at = 1, first_scan_date = None\<rparr>"

definition sunday :: session where
  "sunday = \<lparr>s_id = ''s1'', session_name = ''Sunday Service'', session_date = ''2024-01-07'',
             qr_data = ''https://host/scan/s1'', is_active = 1, s_created_at = 2\<rparr>"

definition fallbackExample :: store where
  "fallbackExample =
     \<lparr>usingFallback = True, activeSessionId = Some ''s1'', fb_members = [(''m1'', ada)],
      fb_sessions = [(''s1'', sunday)], fb_attendance = [], db_members = [],
      db_sessions = [], db_records = []\<rparr>"

definition mongoExample :: store where
  "mongoExample =
     \<lparr>usingFallback = False, activeSessionId = None, fb_members = [], fb_sessions = [],
      fb_attendance = [], db_members = [ada], db_sessions = [sunday], db_records = []\<rparr>"

section \<open>Properties of the string functions\<close>

lemma toLowerChar_upper:
  "(65 \<le> (of_char c :: nat) \<and> (of_char c :: nat) \<le> 90) \<or>
   (192 \<le> (of_char c :: nat) \<and> (of_char c :: nat) \<le> 222 \<and> (of_char c :: nat) \<noteq> 215)
   \<Longrightarrow> toLowerChar c = char_of (of_char c + 32 :: nat)"
  unfolding toLowerChar_def Let_def by (rule if_P)

lemma toLowerChar_other:
  "\<not> ((65 \<le> (of_char c :: nat) \<and> (of_char c :: nat) \<le> 90) \<or>
   (192 \<le> (of_char c :: nat) \<and> (of_char c :: nat) \<le> 222 \<and> (of_char c :: nat) \<noteq> 215))
   \<Longrightarrow> toLowerChar c = c"
  unfolding toLowerChar_def Let_def by (rule if_not_P)

lemma toLowerChar_idem: "toLowerChar (toLowerChar c) = toLowerChar c"
proof -
  let ?n = "of_char c :: nat"
  show ?thesis
  proof (cases "(65 \<le> ?n \<and> ?n \<le> 90) \<or> (192 \<le> ?n \<and> ?n \<le> 222 \<and> ?n \<noteq> 215)")
    case False
    then have "toLowerChar c = c" by (rule toLowerChar_other)
    then show ?thesis by simp
  next
    case True
    then have lt: "?n + 32 < 256" by auto
    have up: "toLowerChar c = char_of (?n + 32)"
      using True by (rule toLowerChar_upper)
    have oc: "(of_char (char_of (?n + 32) :: char) :: nat) = ?n + 32"
      using lt by (simp add: of_char_of)
    have "toLowerChar (char_of (?n + 32)) = char_of (?n + 32)"
      by (rule toLowerChar_other) (use True oc in auto)
    then show ?thesis by (simp only: up)
  qed
qed

lemma isWhiteSpace_toLowerChar: "isWhiteSpace (toLowerChar c) = isWhiteSpace c"
proof -
  let ?n = "of_char c :: nat"
  show ?thesis
  proof (cases "(65 \<le> ?n \<and> ?n \<le> 90) \<or> (192 \<le> ?n \<and> ?n \<le> 222 \<and> ?n \<noteq> 215)")
    case False
    then have "toLowerChar c = c" by (rule toLowerChar_other)
    then show ?thesis by simp
  next
    case True
    then have lt: "?n + 32 < 256" by auto
    have up: "toLowerChar c = char_of (?n + 32)"
      using True by (rule toLowerChar_upper)
    have oc: "(of_char (char_of (?n + 32) :: char) :: nat) = ?n + 32"
      using lt by (simp add: of_char_of)
    show ?thesis
      unfolding up isWhiteSpace_def oc using True by auto
  qed
qed

lemma toLowerCase_idem: "toLowerCase (toLowerCase s) = toLowerCase s"
  by (simp add: toLowerCase_def toLowerChar_idem)

lemma dropWhile_ws_lower:
  "dropWhile isWhiteSpace (map toLowerChar s) = map toLowerChar (dropWhile isWhiteSpace s)"
  by (induction s) (simp_all add: isWhiteSpace_toLowerChar)

lemma trim_toLowerCase: "trim (toLowerCase s) = toLowerCase (trim s)"
  by (simp add: trim_def toLowerCase_def dropWhile_ws_lower rev_map)

lemma dropWhile_rev_dropWhile:
  "dropWhile P (rev (dropWhile P (rev (dropWhile P s)))) = rev (dropWhile P (rev (dropWhile P s)))"
proof (cases "dropWhile P s")
  case Nil
  then show ?thesis by (simp only: rev.simps dropWhile.simps)
next
  case (Cons x xs)
  then have nP: "\<not> P x" by (metis hd_dropWhile list.sel(1) list.distinct(1))
  have "dropWhile P (rev (x # xs)) = dropWhile P (rev xs) @ [x] \<or> dropWhile P (rev (x # xs)) = [x]"
    by (simp add: dropWhile_append nP)
  then show ?thesis unfolding Cons using nP by (elim disjE) simp_all
qed

lemma trim_idem: "trim (trim s) = trim s"
  by (simp add: trim_def dropWhile_rev_dropWhile)

lemma normalize_idem:
  "toLowerCase (trim (toLowerCase (trim s))) = toLowerCase (trim s)"
  by (simp add: trim_toLowerCase trim_idem toLowerCase_idem)

section \<open>Properties of the containers\<close>

lemma Map_get_Map_set:
  "Map_get k' (Map_set k v m) = (if k' = k then Some v else Map_get k' m)"
  by (induction m) (auto simp: Map_get_def)

lemma Map_set_new: "Map_get k m = None \<Longrightarrow> Map_set k v m = m @ [(k, v)]"
  by (induction m) (auto simp: Map_get_def split: if_splits)

lemma Map_get_Map_delete:
  "Map_get k' (Map_delete k m) = (if k' = k then None else Map_get k' m)"
  by (induction m) (auto simp: Map_get_def Map_delete_def)

lemma Map_get_Some_mem: "Map_get k m = Some v \<Longrightarrow> (k, v) \<in> set m"
  by (simp add: Map_get_def map_of_SomeD)

lemma Map_get_None_iff: "Map_get k m = None \<longleftrightarrow> k \<notin> fst ` set m"
  by (simp add: Map_get_def map_of_eq_None_iff)

lemma set_Map_set: "set (Map_set k v m) \<subseteq> insert (k, v) (set m)"
  by (induction m) auto

lemma Map_set_mem: "(k, v) \<in> set (Map_set k v m)"
  by (induction m) auto


lemma list_all_Map_set:
  "list_all P m \<Longrightarrow> P (k, v) \<Longrightarrow> list_all P (Map_set k v m)"
  by (induction m) auto

lemma list_all_Map_delete: "list_all P m \<Longrightarrow> list_all P (Map_delete k m)"
  by (simp add: Map_delete_def list_all_iff)

lemma filter_values_Map_set:
  "\<forall>p \<in> set m. \<not> P (snd p) \<Longrightarrow> P v \<Longrightarrow> filter P (map snd (Map_set k v m)) = [v]"
  by (induction m) (auto simp add: filter_empty_conv)

lemma find_append:
  "find P (xs @ ys) = (case find P xs of None \<Rightarrow> find P ys | Some x \<Rightarrow> Some x)"
  by (induction xs) auto

lemma find_updateOne:
  "find (\<lambda>x. key x = k') (updateOne (\<lambda>x. key x = k) f xs) =
     (if k' = k then map_option f (find (\<lambda>x. key x = k) xs)
      else find (\<lambda>x. key x = k') xs)"
  if "\<And>x. key (f x) = key x"
  using that by (induction xs) auto

lemma map_key_updateOne:
  "(\<And>x. key (f x) = key x) \<Longrightarrow> map key (updateOne P f xs) = map key xs"
  by (induction xs) auto

lemma set_updateOne: "set (updateOne P f xs) \<subseteq> set xs \<union> f ` {x \<in> set xs. P x}"
  by (induction xs) auto

lemma set_deleteOne: "set (deleteOne P xs) \<subseteq> set xs"
  by (induction xs) auto

lemma distinct_map_deleteOne: "distinct (map f xs) \<Longrightarrow> distinct (map f (deleteOne P xs))"
  by (induction xs) (use set_deleteOne in \<open>auto, fastforce\<close>)

lemma find_deleteOne:
  "distinct (map key xs) \<Longrightarrow>
   find (\<lambda>x. key x = k') (deleteOne (\<lambda>x. key x = k) xs) =
     (if k' = k then None else find (\<lambda>x. key x = k') xs)"
  by (induction xs) (auto simp: find_None_iff image_iff)

lemma find_unique:
  "length (filter P xs) \<le> 1 \<Longrightarrow> x \<in> set xs \<Longrightarrow> P x \<Longrightarrow> find P xs = Some x"
proof (induction xs)
  case Nil
  then show ?case by simp
next
  case (Cons a xs)
  show ?case
  proof (cases "P a")
    case True
    with Cons.prems have "filter P xs = []" by simp
    with Cons.prems True show ?thesis by (auto simp: filter_empty_conv)
  next
    case False
    with Cons show ?thesis by auto
  qed
qed

lemma filter_by_distinct_key:
  "distinct (map key xs) \<Longrightarrow>
   filter (\<lambda>x. key x = k) xs = (case find (\<lambda>x. key x = k) xs of None \<Rightarrow> [] | Some x \<Rightarrow> [x])"
proof (induction xs)
  case Nil
  then show ?case by simp
next
  case (Cons a xs)
  show ?case
  proof (cases "key a = k")
    case True
    with Cons.prems have "\<forall>x \<in> set xs. key x \<noteq> k"
      by (auto simp add: image_iff)
    then have "filter (\<lambda>x. key x = k) xs = []"
      by (simp add: filter_empty_conv)
    with True show ?thesis by simp
  next
    case False
    with Cons show ?thesis by simp
  qed
qed

lemma filter_active_deactivated:
  "filter (\<lambda>s. is_active s = 1) (map (\<lambda>s. s\<lparr>is_active := 0\<rparr>) xs) = []"
  by (induction xs) auto

lemma find_active_deactivated:
  "find (\<lambda>s. is_active s = 1) (map (\<lambda>s. s\<lparr>is_active := 0\<rparr>) xs) = None"
  by (induction xs) auto

section \<open>What the database functions change\<close>

lemma updateMemberFirstScan_frame:
  "usingFallback (updateMemberFirstScan st now m) = usingFallback st"
  "db_sessions (updateMemberFirstScan st now m) = db_sessions st"
  "fb_sessions (updateMemberFirstScan st now m) = fb_sessions st"
  "activeSessionId (updateMemberFirstScan st now m) = activeSessionId st"
  "db_records (updateMemberFirstScan st now m) = db_records st"
  "fb_attendance (updateMemberFirstScan st now m) = fb_attendance st"
  by (simp_all add: updateMemberFirstScan_def split: option.splits)

lemma updateMemberFirstScan_reads:
  "getSession (updateMemberFirstScan st now m) = getSession st"
  "getActiveSession (updateMemberFirstScan st now m) = getActiveSession st"
  "getAttendanceRecord (updateMemberFirstScan st now m) = getAttendanceRecord st"
  "countMemberAttendance (updateMemberFirstScan st now m) = countMemberAttendance st"
  "allRecords (updateMemberFirstScan st now m) = allRecords st"
  "allSessions (updateMemberFirstScan st now m) = allSessions st"
  by (simp_all add: fun_eq_iff getSession_def getActiveSession_def getAttendanceRecord_def
      countMemberAttendance_def allRecords_def allSessions_def updateMemberFirstScan_frame
      split: option.splits)

lemma getMember_updateMemberFirstScan:
  "getMember (updateMemberFirstScan st now m) m' =
     map_option
       (\<lambda>x. if m' = m \<and> (usingFallback st \<longrightarrow> first_scan_date x = None)
            then x\<lparr>first_scan_date := Some now\<rparr> else x)
       (getMember st m')"
proof (cases "usingFallback st")
  case False
  have "find (\<lambda>x. m_id x = m') (updateOne (\<lambda>x. m_id x = m)
          (\<lambda>x. x\<lparr>first_scan_date := Some now\<rparr>) (db_members st)) =
        (if m' = m
         then map_option (\<lambda>x. x\<lparr>first_scan_date := Some now\<rparr>)
                (find (\<lambda>x. m_id x = m) (db_members st))
         else find (\<lambda>x. m_id x = m') (db_members st))"
    by (rule find_updateOne) simp
  with False show ?thesis
    by (cases "find (\<lambda>x. m_id x = m') (db_members st)")
      (auto simp add: getMember_def updateMemberFirstScan_def)
next
  case True
  then show ?thesis
    by (cases "Map_get m (fb_members st)"; cases "Map_get m' (fb_members st)")
      (auto simp add: getMember_def updateMemberFirstScan_def Map_get_Map_set)
qed

lemma addAttendanceRecord_frame:
  assumes "addAttendanceRecord st r = Inr st'"
  shows "usingFallback st' = usingFallback st"
    "db_sessions st' = db_sessions st"
    "fb_sessions st' = fb_sessions st"
    "activeSessionId st' = activeSessionId st"
    "db_members st' = db_members st"
    "fb_members st' = fb_members st"
  using assms by (auto simp add: addAttendanceRecord_def split: if_splits sum.splits)

lemma addAttendanceRecord_reads:
  assumes "addAttendanceRecord st r = Inr st'"
  shows "getSession st' = getSession st"
    "getActiveSession st' = getActiveSession st"
    "getMember st' = getMember st"
    "getMembers st' = getMembers st"
    "allSessions st' = allSessions st"
  using addAttendanceRecord_frame [OF assms]
  by (simp_all add: fun_eq_iff getSession_def getActiveSession_def getMember_def
      getMembers_def allSessions_def split: option.splits)

lemma addAttendanceRecord_absent:
  assumes "getAttendanceRecord st (session_id r) (member_id r) = None"
  shows "\<exists>st'. addAttendanceRecord st r = Inr st' \<and> allRecords st' = allRecords st @ [r]"
proof (cases "usingFallback st")
  case False
  with assms have "(session_id r, member_id r) \<notin> set (map (\<lambda>r. (session_id r, member_id r)) (db_records st))"
    by (auto simp add: getAttendanceRecord_def find_None_iff)
  with False show ?thesis
    by (simp add: addAttendanceRecord_def insertOne_records_def allRecords_def)
next
  case True
  with assms have "Map_get (attendanceKey (session_id r) (member_id r)) (fb_attendance st) = None"
    by (simp add: getAttendanceRecord_def)
  with True show ?thesis
    by (simp add: addAttendanceRecord_def allRecords_def Map_set_new Map_values_def)
qed

lemma getAttendanceRecord_added:
  assumes "addAttendanceRecord st r = Inr st'"
    and "getAttendanceRecord st (session_id r) (member_id r) = None"
  shows "getAttendanceRecord st' (session_id r) (member_id r) = Some r"
proof (cases "usingFallback st")
  case False
  with assms show ?thesis
    by (auto simp add: addAttendanceRecord_def insertOne_records_def getAttendanceRecord_def
        find_append split: if_splits)
next
  case True
  with assms show ?thesis
    by (auto simp add: addAttendanceRecord_def getAttendanceRecord_def Map_get_Map_set)
qed

lemma countMemberAttendance_allRecords:
  "countMemberAttendance st mid = length (filter (\<lambda>r. member_id r = mid) (allRecords st))"
  by (simp add: countMemberAttendance_def allRecords_def)

lemma createSession_frame:
  "usingFallback (fst (createSession st d)) = usingFallback st"
  "db_members (fst (createSession st d)) = db_members st"
  "fb_members (fst (createSession st d)) = fb_members st"
  "db_records (fst (createSession st d)) = db_records st"
  "fb_attendance (fst (createSession st d)) = fb_attendance st"
  by (simp_all add: createSession_def Let_def split: sum.splits)

lemma createSession_active:
  assumes "is_active d = 1"
  shows "filter (\<lambda>s. is_active s = 1) (allSessions (fst (createSession st d))) = [d] \<or>
         filter (\<lambda>s. is_active s = 1) (allSessions (fst (createSession st d))) = []"
proof (cases "usingFallback st")
  case False
  then show ?thesis
    using assms
    by (auto simp add: createSession_def allSessions_def insertOne_sessions_def Let_def
        filter_active_deactivated)
next
  case True
  have "filter (\<lambda>s. is_active s = 1)
          (map snd (Map_set (s_id d) d (map (\<lambda>(k, s). (k, s\<lparr>is_active := 0\<rparr>)) (fb_sessions st)))) = [d]"
    by (rule filter_values_Map_set) (use assms in auto)
  with True show ?thesis
    by (simp add: createSession_def allSessions_def Map_values_def)
qed

lemma createSession_fresh:
  assumes "is_active d = 1" and "s_id d \<noteq> []"
    and "s_id d \<notin> set (map s_id (allSessions st))"
  shows "snd (createSession st d) = None"
    and "getActiveSession (fst (createSession st d)) = Some d"
    and "filter (\<lambda>s. is_active s = 1) (allSessions (fst (createSession st d))) = [d]"
proof -
  have ids: "s_id ` (\<lambda>s. s\<lparr>is_active := 0\<rparr>) ` A = s_id ` A" for A
    by (simp add: image_image)
  show "snd (createSession st d) = None"
    using assms(3) by (cases "usingFallback st")
      (simp_all add: createSession_def allSessions_def insertOne_sessions_def Let_def ids)
  show "getActiveSession (fst (createSession st d)) = Some d"
  proof (cases "usingFallback st")
    case False
    with assms show ?thesis
      by (simp add: createSession_def allSessions_def insertOne_sessions_def Let_def ids
          getActiveSession_def find_append find_active_deactivated)
  next
    case True
    with assms show ?thesis
      by (simp add: createSession_def getActiveSession_def Map_get_Map_set)
  qed
  show "filter (\<lambda>s. is_active s = 1) (allSessions (fst (createSession st d))) = [d]"
  proof (cases "usingFallback st")
    case False
    with assms show ?thesis
      by (simp add: createSession_def allSessions_def insertOne_sessions_def Let_def ids
          filter_active_deactivated)
  next
    case True
    have "filter (\<lambda>s. is_active s = 1)
            (map snd (Map_set (s_id d) d
               (map (\<lambda>(k, s). (k, s\<lparr>is_active := 0\<rparr>)) (fb_sessions st)))) = [d]"
      by (rule filter_values_Map_set) (use assms in auto)
    with True show ?thesis
      by (simp add: createSession_def allSessions_def Map_values_def)
  qed
qed



section \<open>What the handlers change\<close>

lemma recordAttendance_marked:
  assumes "recordAttendance st uuid now sid mid manual msgf failed =
           (st', AttendanceMarked msg ft rid)"
  shows "getAttendanceRecord st sid mid = None"
    and "ft = (countMemberAttendance st mid = 0)"
    and "rid = uuid"
    and "addAttendanceRecord (if ft then updateMemberFirstScan st now mid else st)
           \<lparr>r_id = uuid, session_id = sid, member_id = mid, is_first_time = ft,
            scan_time = now, is_present = True, marked_manually = manual\<rparr> = Inr st'"
  using assms
  by (auto simp add: recordAttendance_def Let_def split: option.splits sum.splits)

lemma recordAttendance_absent:
  assumes "getAttendanceRecord st sid mid = None"
  shows "\<exists>st'. recordAttendance st uuid now sid mid manual msgf failed =
           (st', AttendanceMarked (msgf (countMemberAttendance st mid = 0))
                   (countMemberAttendance st mid = 0) uuid) \<and>
         addAttendanceRecord
           (if countMemberAttendance st mid = 0 then updateMemberFirstScan st now mid else st)
           \<lparr>r_id = uuid, session_id = sid, member_id = mid,
            is_first_time = (countMemberAttendance st mid = 0),
            scan_time = now, is_present = True, marked_manually = manual\<rparr> = Inr st'"
proof -
  let ?ft = "countMemberAttendance st mid = 0"
  let ?st1 = "if ?ft then updateMemberFirstScan st now mid else st"
  let ?r = "\<lparr>r_id = uuid, session_id = sid, member_id = mid, is_first_time = ?ft,
            scan_time = now, is_present = True, marked_manually = manual\<rparr>"
  have "getAttendanceRecord ?st1 (session_id ?r) (member_id ?r) = None"
    using assms by (simp add: updateMemberFirstScan_reads)
  from addAttendanceRecord_absent [OF this] obtain st'
    where "addAttendanceRecord ?st1 ?r = Inr st'" by blast
  then show ?thesis
    using assms by (simp add: recordAttendance_def Let_def)
qed

lemma recordAttendance_present:
  "getAttendanceRecord st sid mid = Some r \<Longrightarrow>
   recordAttendance st uuid now sid mid manual msgf failed = (st, AlreadyMarked)"
  by (simp add: recordAttendance_def AlreadyMarked_def)

lemma recordAttendance_effect:
  "fst (recordAttendance st uuid now sid mid manual msgf failed) = st \<or>
   (getAttendanceRecord st sid mid = None \<and>
    addAttendanceRecord
      (if countMemberAttendance st mid = 0 then updateMemberFirstScan st now mid else st)
      \<lparr>r_id = uuid, session_id = sid, member_id = mid,
       is_first_time = (countMemberAttendance st mid = 0),
       scan_time = now, is_present = True, marked_manually = manual\<rparr> =
      Inr (fst (recordAttendance st uuid now sid mid manual msgf failed)))"
proof (cases "getAttendanceRecord st sid mid")
  case None
  from recordAttendance_absent [OF None, of uuid now manual msgf failed] None
  show ?thesis by auto
next
  case (Some r)
  then show ?thesis by (simp add: recordAttendance_present)
qed

lemma recordAttendance_sessions:
  "allSessions (fst (recordAttendance st uuid now sid mid manual msgf failed)) = allSessions st"
  using recordAttendance_effect [of st uuid now sid mid manual msgf failed]
  by (auto dest!: addAttendanceRecord_reads(5) simp add: updateMemberFirstScan_reads
      split: if_splits)

lemma recordAttendance_records:
  "allRecords (fst (recordAttendance st uuid now sid mid manual msgf failed)) = allRecords st \<or>
   allRecords (fst (recordAttendance st uuid now sid mid manual msgf failed)) =
     allRecords st @
       [\<lparr>r_id = uuid, session_id = sid, member_id = mid,
         is_first_time = (countMemberAttendance st mid = 0),
         scan_time = now, is_present = True, marked_manually = manual\<rparr>]"
proof -
  let ?st1 = "if countMemberAttendance st mid = 0 then updateMemberFirstScan st now mid else st"
  let ?r = "\<lparr>r_id = uuid, session_id = sid, member_id = mid,
             is_first_time = (countMemberAttendance st mid = 0),
             scan_time = now, is_present = True, marked_manually = manual\<rparr>"
  let ?st' = "fst (recordAttendance st uuid now sid mid manual msgf failed)"
  from recordAttendance_effect [of st uuid now sid mid manual msgf failed]
  consider "?st' = st"
    | "getAttendanceRecord st sid mid = None" "addAttendanceRecord ?st1 ?r = Inr ?st'"
    by (elim disjE conjE)
  then show ?thesis
  proof cases
    case 1
    then show ?thesis by simp
  next
    case 2
    from 2(1) have "getAttendanceRecord ?st1 (session_id ?r) (member_id ?r) = None"
      by (simp add: updateMemberFirstScan_reads)
    from addAttendanceRecord_absent [OF this] 2(2)
    have "allRecords ?st' = allRecords ?st1 @ [?r]" by auto
    then show ?thesis by (simp add: updateMemberFirstScan_reads)
  qed
qed

lemma getMember_recordAttendance:
  "getMember (fst (recordAttendance st uuid now sid mid' manual msgf failed)) x =
     (if getAttendanceRecord st sid mid' = None \<and> countMemberAttendance st mid' = 0
      then getMember (updateMemberFirstScan st now mid') x
      else getMember st x)"
proof (cases "getAttendanceRecord st sid mid'")
  case (Some r)
  then show ?thesis by (simp add: recordAttendance_present)
next
  case None
  from recordAttendance_absent [OF None, of uuid now manual msgf failed]
  obtain st' where st': "fst (recordAttendance st uuid now sid mid' manual msgf failed) = st'"
    and add: "addAttendanceRecord
           (if countMemberAttendance st mid' = 0 then updateMemberFirstScan st now mid' else st)
           \<lparr>r_id = uuid, session_id = sid, member_id = mid',
            is_first_time = (countMemberAttendance st mid' = 0),
            scan_time = now, is_present = True, marked_manually = manual\<rparr> = Inr st'"
    by auto
  from addAttendanceRecord_reads(3) [OF add] st' None show ?thesis
    by simp
qed

lemma countMemberAttendance_recordAttendance:
  assumes "getAttendanceRecord st sid mid = None"
  shows "countMemberAttendance (fst (recordAttendance st uuid now sid mid manual msgf failed)) mid =
         Suc (countMemberAttendance st mid)"
proof -
  let ?st1 = "if countMemberAttendance st mid = 0 then updateMemberFirstScan st now mid else st"
  let ?r = "\<lparr>r_id = uuid, session_id = sid, member_id = mid,
             is_first_time = (countMemberAttendance st mid = 0),
             scan_time = now, is_present = True, marked_manually = manual\<rparr>"
  from recordAttendance_absent [OF assms, of uuid now manual msgf failed]
  obtain st' where st': "fst (recordAttendance st uuid now sid mid manual msgf failed) = st'"
    and add: "addAttendanceRecord ?st1 ?r = Inr st'"
    by auto
  from assms have "getAttendanceRecord ?st1 (session_id ?r) (member_id ?r) = None"
    by (simp add: updateMemberFirstScan_reads)
  from addAttendanceRecord_absent [OF this] add
  have "allRecords st' = allRecords ?st1 @ [?r]" by auto
  then have "allRecords st' = allRecords st @ [?r]"
    by (simp add: updateMemberFirstScan_reads)
  with st' show ?thesis
    by (simp add: countMemberAttendance_allRecords)
qed

lemma post_api_attendance_marked:
  assumes "post_api_attendance st uuid now sid mid = (st', AttendanceMarked msg ft rid)"
  shows "sid \<noteq> []" and "mid \<noteq> []"
    and "\<exists>s. getSession st sid = Some s"
    and "\<exists>m. getMember st mid = Some m"
    and "\<exists>msgf failed. recordAttendance st uuid now sid mid None msgf failed =
           (st', AttendanceMarked msg ft rid)"
  using assms
  by (auto simp add: post_api_attendance_def split: if_splits option.splits)

lemma post_api_attendance_effect:
  "fst (post_api_attendance st uuid now sid mid) = st \<or>
   (\<exists>msgf failed. fst (post_api_attendance st uuid now sid mid) =
      fst (recordAttendance st uuid now sid mid None msgf failed))"
  by (auto simp add: post_api_attendance_def split: option.splits)

lemma post_api_attendance_manual_effect:
  "fst (post_api_attendance_manual st uuid now mid) = st \<or>
   (\<exists>sid msgf failed. fst (post_api_attendance_manual st uuid now mid) =
      fst (recordAttendance st uuid now sid mid (Some True) msgf failed))"
  by (auto simp add: post_api_attendance_manual_def split: option.splits)


lemma post_api_members_effect:
  "fst (post_api_members st uuid now name email phone address) = st \<or>
   (\<exists>m. m_id m = uuid \<and> first_scan_date m = None \<and>
      (if usingFallback st
       then fst (post_api_members st uuid now name email phone address) =
              st\<lparr>fb_members := Map_set uuid m (fb_members st)\<rparr>
       else uuid \<notin> set (map m_id (db_members st)) \<and>
            fst (post_api_members st uuid now name email phone address) =
              st\<lparr>db_members := db_members st @ [m]\<rparr>))"
proof -
  let ?ce = "toLowerCase (trim email)"
  let ?m = "\<lparr>m_id = uuid, m_name = trim name, m_email = ?ce,
             m_phone = cleanOptional phone, m_address = cleanOptional address,
             m_created_at = now, first_scan_date = None\<rparr>"
  show ?thesis
  proof (cases "name = [] \<or> email = [] \<or> \<not> emailRegex_test ?ce \<or> checkEmailExists st ?ce")
    case True
    then show ?thesis by (auto simp add: post_api_members_def Let_def)
  next
    case False
    then have run: "post_api_members st uuid now name email phone address =
        (case addMember st ?m of
           Inl e \<Rightarrow>
             (st,
              if str_includes (message e) ''already exists'' \<or> code e = Some 11000
              then FailureWithCode 409
                     ''A member with this email address already exists. Please use a different email address.''
                     ''EMAIL_EXISTS''
              else Failure 500 ''Failed to add member. Please try again.'')
         | Inr (st', result) \<Rightarrow> (st', MemberAdded result))"
      by (simp add: post_api_members_def Let_def)
    show ?thesis
    proof (cases "addMember st ?m")
      case (Inl e)
      with run show ?thesis by simp
    next
      case (Inr p)
      obtain st' m' where p: "p = (st', m')" by (cases p)
      from Inr p False have st': "st' =
          (if usingFallback st then st\<lparr>fb_members := Map_set uuid ?m (fb_members st)\<rparr>
           else st\<lparr>db_members := db_members st @ [?m]\<rparr>)"
        and fresh: "\<not> usingFallback st \<longrightarrow> uuid \<notin> set (map m_id (db_members st))"
        by (auto simp add: addMember_def Let_def normalize_idem insertOne_members_def
            split: if_splits)
      from run Inr p have "fst (post_api_members st uuid now name email phone address) = st'"
        by simp
      with st' fresh have "m_id ?m = uuid \<and> first_scan_date ?m = None \<and>
          (if usingFallback st
           then fst (post_api_members st uuid now name email phone address) =
                  st\<lparr>fb_members := Map_set uuid ?m (fb_members st)\<rparr>
           else uuid \<notin> set (map m_id (db_members st)) \<and>
                fst (post_api_members st uuid now name email phone address) =
                  st\<lparr>db_members := db_members st @ [?m]\<rparr>)"
        by simp
      then show ?thesis by blast
    qed
  qed
qed

lemma getMember_post_api_members:
  assumes "getMember st mid = Some m" and "uuid \<noteq> mid"
  shows "getMember (fst (post_api_members st uuid now name email phone address)) mid = Some m"
  using post_api_members_effect [of st uuid now name email phone address] assms
  by (cases "usingFallback st")
    (auto simp add: getMember_def Map_get_Map_set find_append)

lemma delete_api_members_effect:
  "fst (delete_api_members st ident) =
     (if usingFallback st
      then st\<lparr>fb_members := Map_delete ident (fb_members st)\<rparr>
      else st\<lparr>db_members := deleteOne (\<lambda>m. m_id m = ident) (db_members st)\<rparr>)"
  by (simp add: delete_api_members_def deleteMember_def)

lemma post_api_sessions_effect:
  "fst (post_api_sessions st uuid now sessionDate baseUrl sessionName) =
     (if sessionName = [] then st
      else fst (createSession st
             \<lparr>s_id = uuid, session_name = sessionName, session_date = sessionDate,
              qr_data = baseUrl @ ''/scan/'' @ uuid, is_active = 1, s_created_at = now\<rparr>))"
  by (simp add: post_api_sessions_def Let_def split: prod.splits option.splits)

lemma getMember_post_api_sessions:
  "getMember (fst (post_api_sessions st uuid now sessionDate baseUrl sessionName)) mid =
     getMember st mid"
  by (simp add: post_api_sessions_effect getMember_def createSession_frame)

lemma countMemberAttendance_post_api_sessions:
  "countMemberAttendance (fst (post_api_sessions st uuid now sessionDate baseUrl sessionName)) mid =
     countMemberAttendance st mid"
  by (simp add: post_api_sessions_effect countMemberAttendance_def createSession_frame)

lemma step_sessions:
  "allSessions (fst (step st r)) = allSessions st \<or>
   length (filter (\<lambda>s. is_active s = 1) (allSessions (fst (step st r)))) \<le> 1"
proof (cases r)
  case (PostMember uuid now name email phone address)
  with post_api_members_effect [of st uuid now name email phone address] show ?thesis
    by (auto simp add: allSessions_def split: if_splits)
next
  case (DeleteMember ident)
  then show ?thesis
    by (simp add: delete_api_members_effect allSessions_def)
next
  case (PostSession uuid now sessionDate baseUrl sessionName)
  let ?d = "\<lparr>s_id = uuid, session_name = sessionName, session_date = sessionDate,
              qr_data = baseUrl @ ''/scan/'' @ uuid, is_active = 1, s_created_at = now\<rparr>"
  have "is_active ?d = 1" by simp
  from createSession_active [OF this, of st] PostSession show ?thesis
    by (auto simp add: post_api_sessions_effect)
next
  case (PostAttendance uuid now sid mid)
  with post_api_attendance_effect [of st uuid now sid mid] show ?thesis
    by (auto simp add: recordAttendance_sessions)
next
  case (PostAttendanceManual uuid now mid)
  with post_api_attendance_manual_effect [of st uuid now mid] show ?thesis
    by (auto simp add: recordAttendance_sessions)
qed simp_all

lemma step_records:
  "allRecords (fst (step st r)) = allRecords st \<or>
   (\<exists>rec. allRecords (fst (step st r)) = allRecords st @ [rec] \<and>
      is_first_time rec = (countMemberAttendance st (member_id rec) = 0))"
proof (cases r)
  case (PostMember uuid now name email phone address)
  with post_api_members_effect [of st uuid now name email phone address] show ?thesis
    by (auto simp add: allRecords_def split: if_splits)
next
  case (DeleteMember ident)
  then show ?thesis
    by (simp add: delete_api_members_effect allRecords_def)
next
  case (PostSession uuid now sessionDate baseUrl sessionName)
  then show ?thesis
    by (simp add: post_api_sessions_effect allRecords_def createSession_frame)
next
  case (PostAttendance uuid now sid mid)
  with post_api_attendance_effect [of st uuid now sid mid] show ?thesis
  proof (elim disjE exE)
    fix msgf failed
    assume "fst (post_api_attendance st uuid now sid mid) =
            fst (recordAttendance st uuid now sid mid None msgf failed)"
    with PostAttendance recordAttendance_records [of st uuid now sid mid None msgf failed]
    show ?thesis by auto
  qed simp
next
  case (PostAttendanceManual uuid now mid)
  with post_api_attendance_manual_effect [of st uuid now mid] show ?thesis
  proof (elim disjE exE)
    fix sid msgf failed
    assume "fst (post_api_attendance_manual st uuid now mid) =
            fst (recordAttendance st uuid now sid mid (Some True) msgf failed)"
    with PostAttendanceManual
      recordAttendance_records [of st uuid now sid mid "Some True" msgf failed]
    show ?thesis by auto
  qed simp
qed simp_all

section \<open>Well-formed stores\<close>

lemma wf_store_empty: "wf_store (emptyStore fb)"
  by (simp add: wf_store_def emptyStore_def)

lemma wf_store_fallbackKeyed: "wf_store st \<Longrightarrow> fallbackKeyed st"
  by (simp add: wf_store_def fallbackKeyed_def)

lemma wf_store_member_added:
  assumes "wf_store st" and "m_id m = uuid" and "first_scan_date m = None"
  shows "usingFallback st \<Longrightarrow> wf_store (st\<lparr>fb_members := Map_set uuid m (fb_members st)\<rparr>)"
    and "\<not> usingFallback st \<Longrightarrow> uuid \<notin> set (map m_id (db_members st)) \<Longrightarrow>
         wf_store (st\<lparr>db_members := db_members st @ [m]\<rparr>)"
  using assms by (simp_all add: wf_store_def list_all_Map_set)

lemma wf_store_post_api_members:
  assumes "wf_store st"
  shows "wf_store (fst (post_api_members st uuid now name email phone address))"
  using post_api_members_effect [of st uuid now name email phone address] assms
    wf_store_member_added [OF assms]
  by (cases "usingFallback st") auto

lemma wf_store_delete_api_members:
  assumes "wf_store st"
  shows "wf_store (fst (delete_api_members st ident))"
proof (cases "usingFallback st")
  case True
  with assms show ?thesis
    by (simp add: delete_api_members_effect wf_store_def list_all_Map_delete)
next
  case False
  have "list_all Q (deleteOne P xs)" if "list_all Q xs" for P Q and xs :: "member list"
    using that set_deleteOne [of P xs] by (auto simp add: list_all_iff)
  with False assms show ?thesis
    by (simp add: delete_api_members_effect wf_store_def distinct_map_deleteOne)
qed

lemma getMember_delete_api_members:
  assumes "wf_store st"
  shows "getMember (fst (delete_api_members st ident)) mid =
           (if mid = ident then None else getMember st mid)"
proof (cases "usingFallback st")
  case True
  then show ?thesis
    by (simp add: delete_api_members_effect getMember_def Map_get_Map_delete)
next
  case False
  with assms have "distinct (map m_id (db_members st))"
    by (simp add: wf_store_def)
  from find_deleteOne [OF this, of mid ident] False show ?thesis
    by (simp add: delete_api_members_effect getMember_def)
qed

lemma wf_store_createSession:
  assumes "wf_store st" and "is_active d = 1"
  shows "wf_store (fst (createSession st d))"
proof (cases "usingFallback st")
  case False
  from createSession_active [OF assms(2), of st]
  have "length (filter (\<lambda>s. is_active s = 1) (allSessions (fst (createSession st d)))) \<le> 1"
    by auto
  with False assms(1) show ?thesis
    by (simp add: wf_store_def createSession_frame allSessions_def)
next
  case True
  let ?P = "\<lambda>(k, s). s_id s = k \<and> (is_active s = 1 \<longrightarrow> Some (s_id d) = Some k)"
  from True assms(1) have "list_all (\<lambda>(k, s). s_id s = k) (fb_sessions st)"
    by (auto simp add: wf_store_def list_all_iff)
  then have "list_all ?P (map (\<lambda>(k, s). (k, s\<lparr>is_active := 0\<rparr>)) (fb_sessions st))"
    by (auto simp add: list_all_iff)
  then have "list_all ?P (Map_set (s_id d) d
               (map (\<lambda>(k, s). (k, s\<lparr>is_active := 0\<rparr>)) (fb_sessions st)))"
    by (rule list_all_Map_set) simp
  with True assms(1) show ?thesis
    by (simp add: wf_store_def createSession_def)
qed

lemma wf_store_post_api_sessions:
  "wf_store st \<Longrightarrow> wf_store (fst (post_api_sessions st uuid now sessionDate baseUrl sessionName))"
  by (simp add: post_api_sessions_effect wf_store_createSession)

lemma wf_store_recorded:
  assumes "wf_store st"
    and "member_id r = mid"
    and "addAttendanceRecord (if b then updateMemberFirstScan st now mid else st) r = Inr st'"
  shows "wf_store st'"
proof (cases "usingFallback st")
  case True
  let ?st1 = "if b then updateMemberFirstScan st now mid else st"
  have fb1: "usingFallback ?st1" using True by (simp add: updateMemberFirstScan_frame)
  from True assms(1) have keyed: "list_all (\<lambda>(k, m). m_id m = k) (fb_members st)"
    by (simp add: wf_store_def)
  have "list_all (\<lambda>(k, m). m_id m = k) (fb_members (updateMemberFirstScan st now mid))"
  proof (cases "Map_get mid (fb_members st)")
    case None
    with True keyed show ?thesis by (simp add: updateMemberFirstScan_def)
  next
    case (Some m)
    then have "(mid, m) \<in> set (fb_members st)" by (rule Map_get_Some_mem)
    with keyed have "m_id m = mid" by (auto simp add: list_all_iff)
    with True keyed Some show ?thesis
      by (simp add: updateMemberFirstScan_def list_all_Map_set)
  qed
  with keyed have m1: "list_all (\<lambda>(k, m). m_id m = k) (fb_members ?st1)" by simp
  from True assms(1) have s1: "list_all (\<lambda>(k, s). s_id s = k \<and>
        (is_active s = 1 \<longrightarrow> activeSessionId ?st1 = Some k)) (fb_sessions ?st1)"
    by (simp add: wf_store_def updateMemberFirstScan_frame)
  from True assms(1) have a1: "list_all (\<lambda>(k, r). k = attendanceKey (session_id r) (member_id r))
        (fb_attendance ?st1)"
    by (simp add: wf_store_def updateMemberFirstScan_frame)
  from assms(3) fb1 have st': "st' = ?st1\<lparr>fb_attendance :=
      Map_set (attendanceKey (session_id r) (member_id r)) r (fb_attendance ?st1)\<rparr>"
    by (simp add: addAttendanceRecord_def)
  have "list_all (\<lambda>(k, r). k = attendanceKey (session_id r) (member_id r))
          (Map_set (attendanceKey (session_id r) (member_id r)) r (fb_attendance ?st1))"
    using a1 by (rule list_all_Map_set) simp
  with m1 s1 fb1 show ?thesis
    unfolding st' by (simp add: wf_store_def)
next
  case False
  let ?st1 = "if b then updateMemberFirstScan st now mid else st"
  let ?f = "\<lambda>m. m\<lparr>first_scan_date := Some now\<rparr>"
  have fb1: "\<not> usingFallback ?st1" using False by (simp add: updateMemberFirstScan_frame)
  from assms(3) fb1 have st': "st' = ?st1\<lparr>db_records := db_records ?st1 @ [r]\<rparr>"
    by (auto simp add: addAttendanceRecord_def insertOne_records_def split: if_splits)
  have recs: "db_records ?st1 = db_records st"
    by (simp add: updateMemberFirstScan_frame)
  have sess: "db_sessions ?st1 = db_sessions st"
    by (simp add: updateMemberFirstScan_frame)
  have ids: "map m_id (db_members ?st1) = map m_id (db_members st)"
    using False by (simp add: updateMemberFirstScan_def map_key_updateOne)
  from False assms(1) have old: "\<forall>m \<in> set (db_members st).
      first_scan_date m \<noteq> None \<longrightarrow> m_id m \<in> set (map member_id (db_records st))"
    by (simp add: wf_store_def list_all_iff)
  have "first_scan_date m \<noteq> None \<longrightarrow> m_id m \<in> set (map member_id (db_records st @ [r]))"
    if "m \<in> set (db_members ?st1)" for m
  proof (cases "m \<in> set (db_members st)")
    case True
    with old show ?thesis by auto
  next
    case False
    with that \<open>\<not> usingFallback st\<close>
    have "m \<in> set (updateOne (\<lambda>m. m_id m = mid) ?f (db_members st))"
      by (auto simp add: updateMemberFirstScan_def split: if_splits)
    with False set_updateOne [of "\<lambda>m. m_id m = mid" ?f "db_members st"]
    have "m_id m = mid" by auto
    with assms(2) show ?thesis by simp
  qed
  then have scan: "list_all (\<lambda>m. first_scan_date m \<noteq> None \<longrightarrow>
      m_id m \<in> set (map member_id (db_records st @ [r]))) (db_members ?st1)"
    by (simp add: list_all_iff)
  from False assms(1) ids sess have "distinct (map m_id (db_members ?st1))"
    "length (filter (\<lambda>s. is_active s = 1) (db_sessions ?st1)) \<le> 1"
    by (simp_all add: wf_store_def)
  with scan fb1 recs show ?thesis
    unfolding st' by (simp add: wf_store_def)
qed

lemma wf_store_recordAttendance:
  assumes "wf_store st"
  shows "wf_store (fst (recordAttendance st uuid now sid mid manual msgf failed))"
proof -
  let ?r = "\<lparr>r_id = uuid, session_id = sid, member_id = mid,
             is_first_time = (countMemberAttendance st mid = 0),
             scan_time = now, is_present = True, marked_manually = manual\<rparr>"
  have "member_id ?r = mid" by simp
  note w = wf_store_recorded [OF assms this]
  from recordAttendance_effect [of st uuid now sid mid manual msgf failed] assms
  show ?thesis by (auto intro: w)
qed

lemma wf_store_step: "wf_store st \<Longrightarrow> wf_store (fst (step st r))"
proof (cases r)
  case (PostAttendance uuid now sid mid)
  assume "wf_store st"
  with PostAttendance post_api_attendance_effect [of st uuid now sid mid] show ?thesis
    by (auto simp add: wf_store_recordAttendance)
next
  case (PostAttendanceManual uuid now mid)
  assume "wf_store st"
  with PostAttendanceManual post_api_attendance_manual_effect [of st uuid now mid] show ?thesis
    by (auto simp add: wf_store_recordAttendance)
qed (simp_all add: wf_store_post_api_members wf_store_delete_api_members
    wf_store_post_api_sessions)

lemma reachable_wf_store: "reachable st \<Longrightarrow> wf_store st"
  by (induction rule: reachable.induct) (simp_all add: wf_store_empty wf_store_step)

lemma reachable_fallbackExample: "reachable fallbackExample"
proof -
  have lower: "toLowerCase ''ADA@X.COM'' = ''ada@x.com''" "toLowerCase ''ada@x.com'' = ''ada@x.com''"
    by (simp_all add: toLowerCase_def toLowerChar_def char_of_eq_iff)
  have tr: "trim ''ADA@X.COM'' = ''ADA@X.COM''" "trim ''ada@x.com'' = ''ada@x.com''"
    "trim ''Ada Lovelace'' = ''Ada Lovelace''"
    by (simp_all add: trim_def isWhiteSpace_def)
  have re: "emailRegex_test ''ada@x.com''"
    by (simp add: emailRegex_test_def emailClass_def isWhiteSpace_def)
  have a: "fst (step (emptyStore True)
                 (PostMember ''m1'' 1 ''Ada Lovelace'' ''ADA@X.COM'' None None)) =
           emptyStore True\<lparr>fb_members := [(''m1'', ada)]\<rparr>"
    by (simp add: post_api_members_def addMember_def checkEmailExists_def cleanOptional_def
        Map_values_def emptyStore_def ada_def lower tr re Let_def)
  have b: "fst (step (emptyStore True\<lparr>fb_members := [(''m1'', ada)]\<rparr>)
                 (PostSession ''s1'' 2 ''2024-01-07'' ''https://host'' ''Sunday Service'')) =
           fallbackExample"
    by (simp add: post_api_sessions_def createSession_def emptyStore_def fallbackExample_def
        sunday_def Let_def)
  have "reachable (emptyStore True)" by (rule reachable.empty)
  from reachable.request [OF this, of "PostMember ''m1'' 1 ''Ada Lovelace'' ''ADA@X.COM'' None None"]
  have "reachable (emptyStore True\<lparr>fb_members := [(''m1'', ada)]\<rparr>)"
    by (simp only: a)
  from reachable.request [OF this,
      of "PostSession ''s1'' 2 ''2024-01-07'' ''https://host'' ''Sunday Service''"]
  show ?thesis by (simp only: b)
qed

text \<open>The keying of the fallback maps alone is kept as well, whatever MongoDB holds.\<close>

lemma recordAttendance_usingFallback:
  "usingFallback (fst (recordAttendance st uuid now sid mid manual msgf failed)) =
     usingFallback st"
  using recordAttendance_effect [of st uuid now sid mid manual msgf failed]
  by (auto dest!: addAttendanceRecord_frame(1) simp add: updateMemberFirstScan_frame
      split: if_splits)

lemma step_usingFallback: "usingFallback (fst (step st r)) = usingFallback st"
proof (cases r)
  case (PostMember uuid now name email phone address)
  with post_api_members_effect [of st uuid now name email phone address] show ?thesis
    by (auto split: if_splits)
next
  case (DeleteMember ident)
  then show ?thesis by (simp add: delete_api_members_effect)
next
  case (PostSession uuid now sessionDate baseUrl sessionName)
  then show ?thesis by (simp add: post_api_sessions_effect createSession_frame)
next
  case (PostAttendance uuid now sid mid)
  with post_api_attendance_effect [of st uuid now sid mid] show ?thesis
    by (auto simp add: recordAttendance_usingFallback)
next
  case (PostAttendanceManual uuid now mid)
  with post_api_attendance_manual_effect [of st uuid now mid] show ?thesis
    by (auto simp add: recordAttendance_usingFallback)
qed simp_all

lemma fallbackKeyed_step: "fallbackKeyed st \<Longrightarrow> fallbackKeyed (fst (step st r))"
proof (cases "usingFallback st")
  case True
  assume "fallbackKeyed st"
  with True have "wf_store st" by (simp add: fallbackKeyed_def wf_store_def)
  then have "wf_store (fst (step st r))" by (rule wf_store_step)
  then show ?thesis by (rule wf_store_fallbackKeyed)
next
  case False
  then show ?thesis by (simp add: fallbackKeyed_def step_usingFallback)
qed

lemma reachable_fallbackKeyed: "reachable st \<Longrightarrow> fallbackKeyed st"
  by (simp add: reachable_wf_store wf_store_fallbackKeyed)

section \<open>Session statistics\<close>

lemma stats_fold:
  "fold (\<lambda>r (tp, fc).
           if session_id r = sessionId
           then (tp + 1, if is_first_time r then fc + 1 else fc)
           else (tp, fc)) rs (a, b) =
   (a + length (filter (\<lambda>r. session_id r = sessionId) rs),
    b + length (filter (\<lambda>r. session_id r = sessionId \<and> is_first_time r) rs))"
  by (induction rs arbitrary: a b) auto

text \<open>
  Claim C9.  For every store and every session id, \<open>sessionStatistics\<close> answers with
  the number of attendance records of that session, the number of those flagged
  first-time, and the size of the whole member collection; the third number does not
  depend on the session id.
\<close>

theorem sessionStatistics_counts:
  "get_api_sessions_stats st sessionId =
     Statistics
       (length (filter (\<lambda>r. session_id r = sessionId) (allRecords st)))
       (length (filter (\<lambda>r. session_id r = sessionId \<and> is_first_time r) (allRecords st)))
       (length (getMembers st))"
proof (cases "usingFallback st")
  case True
  then show ?thesis
    by (simp add: get_api_sessions_stats_def allRecords_def getMembers_def stats_fold
        Map_values_def)
next
  case False
  then show ?thesis
    by (auto simp add: get_api_sessions_stats_def allRecords_def getMembers_def Let_def
        conj_commute filter_empty_conv)
qed

section \<open>The attendance key of the fallback\<close>

text \<open>
  Claim C10.  In the fallback the attendance map is keyed by the session id, a hyphen
  and the member id.  When two records have the same key, adding the second after the
  first replaces the first: the lookup of the first pair then yields the second record,
  the map has not grown, and \<open>getAttendanceRecord\<close> answers alike for both pairs in
  every fallback store.
\<close>

theorem attendanceKey_collision:
  assumes "usingFallback st"
    and "attendanceKey (session_id r1) (member_id r1) =
         attendanceKey (session_id r2) (member_id r2)"
  shows "\<exists>st1 st2.
           addAttendanceRecord st r1 = Inr st1 \<and>
           addAttendanceRecord st1 r2 = Inr st2 \<and>
           getAttendanceRecord st1 (session_id r1) (member_id r1) = Some r1 \<and>
           getAttendanceRecord st2 (session_id r1) (member_id r1) = Some r2 \<and>
           getAttendanceRecord st2 (session_id r2) (member_id r2) = Some r2 \<and>
           length (fb_attendance st2) = length (fb_attendance st1) \<and>
           map fst (fb_attendance st2) = map fst (fb_attendance st1) \<and>
           (\<forall>st'. usingFallback st' \<longrightarrow>
              getAttendanceRecord st' (session_id r1) (member_id r1) =
              getAttendanceRecord st' (session_id r2) (member_id r2))"
proof -
  let ?k = "attendanceKey (session_id r1) (member_id r1)"
  let ?st1 = "st\<lparr>fb_attendance := Map_set ?k r1 (fb_attendance st)\<rparr>"
  let ?st2 = "?st1\<lparr>fb_attendance := Map_set ?k r2 (fb_attendance ?st1)\<rparr>"
  have a1: "addAttendanceRecord st r1 = Inr ?st1"
    using assms(1) by (simp add: addAttendanceRecord_def)
  have a2: "addAttendanceRecord ?st1 r2 = Inr ?st2"
    using assms by (simp add: addAttendanceRecord_def)
  have keys: "map fst (Map_set k v (Map_set k w m)) = map fst (Map_set k w m)" for k m
    and v w :: attendance
    by (induction m) auto
  have g1: "getAttendanceRecord ?st1 (session_id r1) (member_id r1) = Some r1"
    using assms(1) by (simp add: getAttendanceRecord_def Map_get_Map_set)
  have g2: "getAttendanceRecord ?st2 (session_id r1) (member_id r1) = Some r2"
    using assms(1) by (simp add: getAttendanceRecord_def Map_get_Map_set)
  have g3: "getAttendanceRecord ?st2 (session_id r2) (member_id r2) = Some r2"
    using assms by (simp add: getAttendanceRecord_def Map_get_Map_set)
  have k2: "map fst (fb_attendance ?st2) = map fst (fb_attendance ?st1)"
    by (simp add: keys)
  then have l2: "length (fb_attendance ?st2) = length (fb_attendance ?st1)"
    by (metis length_map)
  have same: "\<forall>st'. usingFallback st' \<longrightarrow>
              getAttendanceRecord st' (session_id r1) (member_id r1) =
              getAttendanceRecord st' (session_id r2) (member_id r2)"
    using assms(2) by (simp add: getAttendanceRecord_def)
  from a1 a2 g1 g2 g3 l2 k2 same show ?thesis by blast
qed

theorem attendanceKey_collision_witness:
  "\<exists>st1 st2.
     addAttendanceRecord (emptyStore True)
       \<lparr>r_id = ''r1'', session_id = ''a'', member_id = ''b-c'', is_first_time = True,
        scan_time = 1, is_present = True, marked_manually = None\<rparr> = Inr st1 \<and>
     addAttendanceRecord st1
       \<lparr>r_id = ''r2'', session_id = ''a-b'', member_id = ''c'', is_first_time = True,
        scan_time = 2, is_present = True, marked_manually = None\<rparr> = Inr st2 \<and>
     getAttendanceRecord st2 ''a'' ''b-c'' =
       Some \<lparr>r_id = ''r2'', session_id = ''a-b'', member_id = ''c'', is_first_time = True,
             scan_time = 2, is_present = True, marked_manually = None\<rparr>"
proof -
  let ?r1 = "\<lparr>r_id = ''r1'', session_id = ''a'', member_id = ''b-c'', is_first_time = True,
        scan_time = 1, is_present = True, marked_manually = None\<rparr>"
  let ?r2 = "\<lparr>r_id = ''r2'', session_id = ''a-b'', member_id = ''c'', is_first_time = True,
        scan_time = 2, is_present = True, marked_manually = None\<rparr>"
  have h1: "usingFallback (emptyStore True)"
    by (simp add: emptyStore_def)
  have h2: "attendanceKey (session_id ?r1) (member_id ?r1) =
            attendanceKey (session_id ?r2) (member_id ?r2)"
    by (simp add: attendanceKey_def)
  from attendanceKey_collision [OF h1 h2] show ?thesis
    by simp blast
qed

section \<open>Marking attendance twice\<close>

lemma no_record_for_pair:
  assumes "fallbackKeyed st" and "getAttendanceRecord st sid mid = None"
  shows "filter (\<lambda>r. session_id r = sid \<and> member_id r = mid) (allRecords st) = []"
proof (cases "usingFallback st")
  case False
  with assms(2) show ?thesis
    by (auto simp add: getAttendanceRecord_def allRecords_def find_None_iff filter_empty_conv)
next
  case True
  with assms(2) have absent: "attendanceKey sid mid \<notin> fst ` set (fb_attendance st)"
    by (simp add: getAttendanceRecord_def Map_get_None_iff)
  from True assms(1) have keyed:
    "\<forall>(k, r) \<in> set (fb_attendance st). k = attendanceKey (session_id r) (member_id r)"
    by (simp add: fallbackKeyed_def list_all_iff)
  have "\<not> (session_id r = sid \<and> member_id r = mid)" if "r \<in> set (Map_values (fb_attendance st))" for r
  proof -
    from that obtain k where "(k, r) \<in> set (fb_attendance st)"
      by (auto simp add: Map_values_def)
    with keyed absent show ?thesis by force
  qed
  with True show ?thesis
    by (simp add: allRecords_def filter_empty_conv)
qed

text \<open>
  Claim C1.  When \<open>markAttendance\<close> for a session and a member succeeds, the next
  \<open>markAttendance\<close> for the same session and member (with any fresh identifier and
  clock reading) answers AlreadyMarked and leaves the store as it is, and the store holds
  exactly one attendance record of that pair.  For MongoDB this holds of every store, for
  the fallback of every store whose maps are keyed as their writers key them.
\<close>

theorem markAttendance_twice:
  assumes "fallbackKeyed st"
    and "post_api_attendance st uuid now sid mid = (st', AttendanceMarked msg ft rid)"
  shows "post_api_attendance st' uuid2 now2 sid mid = (st', AlreadyMarked) \<and>
         length (filter (\<lambda>r. session_id r = sid \<and> member_id r = mid) (allRecords st')) = 1"
proof -
  note m = post_api_attendance_marked [OF assms(2)]
  from m(5) obtain msgf failed
    where rec: "recordAttendance st uuid now sid mid None msgf failed =
                (st', AttendanceMarked msg ft rid)" by blast
  note r = recordAttendance_marked [OF rec]
  let ?st1 = "if ft then updateMemberFirstScan st now mid else st"
  let ?r = "\<lparr>r_id = uuid, session_id = sid, member_id = mid, is_first_time = ft,
            scan_time = now, is_present = True, marked_manually = None\<rparr>"
  have none1: "getAttendanceRecord ?st1 (session_id ?r) (member_id ?r) = None"
    using r(1) by (simp add: updateMemberFirstScan_reads)
  from addAttendanceRecord_absent [OF none1] r(4)
  have recs: "allRecords st' = allRecords st @ [?r]"
    by (auto simp add: updateMemberFirstScan_reads)
  have found: "getAttendanceRecord st' sid mid = Some ?r"
    using getAttendanceRecord_added [OF r(4) none1] by simp
  have sess: "getSession st' sid = getSession st sid"
    using addAttendanceRecord_reads(1) [OF r(4)] by (simp add: updateMemberFirstScan_reads)
  have "getMember st' mid = getMember ?st1 mid"
    using addAttendanceRecord_reads(3) [OF r(4)] by simp
  with m(4) have memb: "\<exists>m. getMember st' mid = Some m"
    by (auto simp add: getMember_updateMemberFirstScan)
  have second: "post_api_attendance st' uuid2 now2 sid mid = (st', AlreadyMarked)"
    using m(1,2,3) sess memb found
    by (auto simp add: post_api_attendance_def recordAttendance_present)
  have "filter (\<lambda>r. session_id r = sid \<and> member_id r = mid) (allRecords st) = []"
    using no_record_for_pair [OF assms(1) r(1)] .
  then have one: "length (filter (\<lambda>r. session_id r = sid \<and> member_id r = mid) (allRecords st')) = 1"
    by (simp add: recs)
  from second one show ?thesis by simp
qed

theorem markAttendance_twice_witness:
  "\<exists>st'. post_api_attendance fallbackExample ''r1'' 10 ''s1'' ''m1'' =
           (st', AttendanceMarked ''Welcome Ada Lovelace! First time attendance recorded.''
                   True ''r1'') \<and>
         post_api_attendance st' ''r2'' 20 ''s1'' ''m1'' = (st', AlreadyMarked) \<and>
         length (filter (\<lambda>r. session_id r = ''s1'' \<and> member_id r = ''m1'') (allRecords st')) = 1"
proof -
  have h1: "fallbackKeyed fallbackExample"
    by (simp add: fallbackKeyed_def attendanceKey_def fallbackExample_def ada_def sunday_def)
  have h2: "post_api_attendance fallbackExample ''r1'' 10 ''s1'' ''m1'' =
              (fallbackExample
                 \<lparr>fb_members := [(''m1'', ada\<lparr>first_scan_date := Some 10\<rparr>)],
                  fb_attendance :=
                    [(''s1-m1'',
                      \<lparr>r_id = ''r1'', session_id = ''s1'', member_id = ''m1'',
                       is_first_time = True, scan_time = 10, is_present = True,
                       marked_manually = None\<rparr>)]\<rparr>,
               AttendanceMarked ''Welcome Ada Lovelace! First time attendance recorded.''
                 True ''r1'')"
    by (simp add: post_api_attendance_def recordAttendance_def getSession_def getMember_def
        getAttendanceRecord_def countMemberAttendance_def updateMemberFirstScan_def
        addAttendanceRecord_def attendanceKey_def Map_get_def Map_values_def
        fallbackExample_def ada_def sunday_def)
  from markAttendance_twice [OF h1 h2] h2 show ?thesis
    by blast
qed

section \<open>Marking attendance without an active session\<close>

lemma getSession_is_active_session:
  assumes "wf_store st" and "sid \<noteq> []" and "getSession st sid = Some s"
  shows "getActiveSession st = Some s \<and> s_id s = sid"
proof (cases "usingFallback st")
  case False
  with assms(3) have "s \<in> set (db_sessions st)" "s_id s = sid" "is_active s = 1"
    by (auto simp add: getSession_def find_Some_iff)
  moreover from False assms(1)
  have "length (filter (\<lambda>s. is_active s = 1) (db_sessions st)) \<le> 1"
    by (simp add: wf_store_def)
  ultimately have "find (\<lambda>s. is_active s = 1) (db_sessions st) = Some s"
    by (simp add: find_unique)
  with False \<open>s_id s = sid\<close> show ?thesis
    by (simp add: getActiveSession_def)
next
  case True
  with assms(3) have got: "Map_get sid (fb_sessions st) = Some s" and act: "is_active s = 1"
    by (auto simp add: getSession_def split: option.splits if_splits)
  from got have "(sid, s) \<in> set (fb_sessions st)"
    by (rule Map_get_Some_mem)
  with True assms(1) act have "s_id s = sid" "activeSessionId st = Some sid"
    by (auto simp add: wf_store_def list_all_iff)
  with True got act assms(2) show ?thesis
    by (simp add: getActiveSession_def)
qed

lemma getSession_flagged:
  assumes "fallbackKeyed st" and "getSession st sid = Some s"
  shows "s \<in> set (allSessions st) \<and> s_id s = sid \<and> is_active s = 1"
proof (cases "usingFallback st")
  case False
  with assms(2) show ?thesis
    by (auto simp add: getSession_def allSessions_def find_Some_iff)
next
  case True
  with assms(2) have got: "Map_get sid (fb_sessions st) = Some s" and act: "is_active s = 1"
    by (auto simp add: getSession_def split: option.splits if_splits)
  from got have mem: "(sid, s) \<in> set (fb_sessions st)"
    by (rule Map_get_Some_mem)
  with True assms(1) have "s_id s = sid"
    by (auto simp add: fallbackKeyed_def list_all_iff)
  moreover from mem have "s \<in> snd ` set (fb_sessions st)"
    by force
  ultimately show ?thesis
    using True act by (simp add: allSessions_def Map_values_def)
qed

text \<open>
  Claim C6, as the code has it.  The handler first rejects an empty session id or member
  id with the validation error, so the claim fails there.  For non-empty ids the call
  answers SessionNotActive when no session with the given id is flagged active, and also
  when, in a store as sequential requests leave it, the session that \<open>getActiveSession\<close>
  returns (if any) has another id.  In all these cases the store is returned as it was.
\<close>

theorem markAttendance_inactive_session:
  assumes "fallbackKeyed st"
    and "(\<forall>s \<in> set (allSessions st). s_id s = sid \<longrightarrow> is_active s \<noteq> 1) \<or>
         (wf_store st \<and> (\<forall>s. getActiveSession st = Some s \<longrightarrow> s_id s \<noteq> sid))"
  shows "post_api_attendance st uuid now sid mid =
           (st, if sid = [] \<or> mid = []
                then Failure 400 ''Session ID and Member ID are required''
                else SessionNotActive)"
proof (cases "sid = [] \<or> mid = []")
  case True
  then show ?thesis by (auto simp add: post_api_attendance_def)
next
  case False
  have "getSession st sid = None"
  proof (cases "getSession st sid")
    case (Some s)
    from assms(2) show ?thesis
    proof
      assume "\<forall>s \<in> set (allSessions st). s_id s = sid \<longrightarrow> is_active s \<noteq> 1"
      with getSession_flagged [OF assms(1) Some] show ?thesis by auto
    next
      assume "wf_store st \<and> (\<forall>s. getActiveSession st = Some s \<longrightarrow> s_id s \<noteq> sid)"
      with getSession_is_active_session [OF _ _ Some] False show ?thesis by auto
    qed
  qed simp
  with False show ?thesis
    by (simp add: post_api_attendance_def SessionNotActive_def)
qed

theorem markAttendance_inactive_session_witness:
  "post_api_attendance fallbackExample ''r1'' 10 ''s2'' ''m1'' =
     (fallbackExample, SessionNotActive)"
proof -
  have h1: "fallbackKeyed fallbackExample"
    by (simp add: fallbackKeyed_def attendanceKey_def fallbackExample_def ada_def sunday_def)
  have h2: "(\<forall>s \<in> set (allSessions fallbackExample). s_id s = ''s2'' \<longrightarrow> is_active s \<noteq> 1) \<or>
            (wf_store fallbackExample \<and>
             (\<forall>s. getActiveSession fallbackExample = Some s \<longrightarrow> s_id s \<noteq> ''s2''))"
    by (simp add: allSessions_def Map_values_def fallbackExample_def sunday_def)
  from markAttendance_inactive_session [OF h1 h2, of "''r1''" 10 "''m1''"] show ?thesis
    by simp
qed

text \<open>
  An empty session id is answered with the validation error, although no session has
  the empty id and the member exists.
\<close>

theorem markAttendance_empty_session_id_counterexample:
  "[] \<notin> set (map s_id (allSessions fallbackExample)) \<and>
   getMember fallbackExample ''m1'' = Some ada \<and>
   post_api_attendance fallbackExample ''r1'' 10 [] ''m1'' =
     (fallbackExample, Failure 400 ''Session ID and Member ID are required'') \<and>
   post_api_attendance fallbackExample ''r1'' 10 [] ''m1'' \<noteq>
     (fallbackExample, SessionNotActive)"
  by (simp add: allSessions_def Map_values_def getMember_def Map_get_def fallbackExample_def
      sunday_def post_api_attendance_def SessionNotActive_def)

section \<open>Registering members\<close>



section \<open>Creating sessions\<close>

lemma reachable_one_active:
  "reachable st \<Longrightarrow> length (filter (\<lambda>s. is_active s = 1) (allSessions st)) \<le> 1"
proof (induction rule: reachable.induct)
  case (empty fb)
  then show ?case by (simp add: allSessions_def emptyStore_def Map_values_def)
next
  case (request st r)
  with step_sessions [of st r] show ?case by auto
qed

text \<open>
  Claim C2.  A \<open>createSession\<close> with a session name and a fresh, non-empty identifier
  succeeds from any store; right after it \<open>getActiveSession\<close> returns the new session and
  the new session is the only one flagged active.  In every store that sequential
  requests reach from an empty store, at most one session is flagged active.
\<close>

theorem createSession_single_active:
  "(sessionName \<noteq> [] \<and> uuid \<noteq> [] \<and> uuid \<notin> set (map s_id (allSessions st)) \<longrightarrow>
      snd (post_api_sessions st uuid now sessionDate baseUrl sessionName) =
        SessionCreated uuid sessionName sessionDate (baseUrl @ ''/scan/'' @ uuid) \<and>
      getActiveSession (fst (post_api_sessions st uuid now sessionDate baseUrl sessionName)) =
        Some \<lparr>s_id = uuid, session_name = sessionName, session_date = sessionDate,
              qr_data = baseUrl @ ''/scan/'' @ uuid, is_active = 1, s_created_at = now\<rparr> \<and>
      filter (\<lambda>s. is_active s = 1)
        (allSessions (fst (post_api_sessions st uuid now sessionDate baseUrl sessionName))) =
        [\<lparr>s_id = uuid, session_name = sessionName, session_date = sessionDate,
          qr_data = baseUrl @ ''/scan/'' @ uuid, is_active = 1, s_created_at = now\<rparr>]) \<and>
   (reachable st \<longrightarrow> length (filter (\<lambda>s. is_active s = 1) (allSessions st)) \<le> 1)"
proof -
  let ?d = "\<lparr>s_id = uuid, session_name = sessionName, session_date = sessionDate,
             qr_data = baseUrl @ ''/scan/'' @ uuid, is_active = 1, s_created_at = now\<rparr>"
  have "snd (post_api_sessions st uuid now sessionDate baseUrl sessionName) =
          SessionCreated uuid sessionName sessionDate (baseUrl @ ''/scan/'' @ uuid) \<and>
        getActiveSession (fst (post_api_sessions st uuid now sessionDate baseUrl sessionName)) =
          Some ?d \<and>
        filter (\<lambda>s. is_active s = 1)
          (allSessions (fst (post_api_sessions st uuid now sessionDate baseUrl sessionName))) =
          [?d]"
    if name: "sessionName \<noteq> []" and ne: "uuid \<noteq> []"
      and fresh: "uuid \<notin> set (map s_id (allSessions st))"
  proof -
    have "is_active ?d = 1" "s_id ?d \<noteq> []" "s_id ?d \<notin> set (map s_id (allSessions st))"
      using ne fresh by simp_all
    note c = createSession_fresh [OF this]
    from c(1) name have "snd (post_api_sessions st uuid now sessionDate baseUrl sessionName) =
          SessionCreated uuid sessionName sessionDate (baseUrl @ ''/scan/'' @ uuid)"
      by (cases "createSession st ?d") (simp add: post_api_sessions_def Let_def)
    with c(2,3) name show ?thesis
      by (simp add: post_api_sessions_effect)
  qed
  then show ?thesis
    using reachable_one_active by blast
qed

theorem createSession_single_active_witness:
  "getActiveSession
     (fst (post_api_sessions fallbackExample ''s2'' 3 ''2024-01-07'' ''https://host''
             ''Evening Service'')) =
     Some \<lparr>s_id = ''s2'', session_name = ''Evening Service'', session_date = ''2024-01-07'',
           qr_data = ''https://host/scan/s2'', is_active = 1, s_created_at = 3\<rparr> \<and>
   filter (\<lambda>s. is_active s = 1)
     (allSessions
        (fst (post_api_sessions fallbackExample ''s2'' 3 ''2024-01-07'' ''https://host''
                ''Evening Service''))) =
     [\<lparr>s_id = ''s2'', session_name = ''Evening Service'', session_date = ''2024-01-07'',
       qr_data = ''https://host/scan/s2'', is_active = 1, s_created_at = 3\<rparr>] \<and>
   length (filter (\<lambda>s. is_active s = 1) (allSessions (emptyStore False))) \<le> 1"
proof -
  have h1: "''Evening Service'' \<noteq> [] \<and> ''s2'' \<noteq> [] \<and>
            ''s2'' \<notin> set (map s_id (allSessions fallbackExample))"
    by (simp add: allSessions_def fallbackExample_def Map_values_def sunday_def)
  have h2: "reachable (emptyStore False)"
    by (rule reachable.empty)
  from createSession_single_active [of "''Evening Service''" "''s2''" fallbackExample 3
      "''2024-01-07''" "''https://host''"] h1
    createSession_single_active [of "[]" "[]" "emptyStore False" 0 "[]" "[]"] h2
  show ?thesis by simp
qed

section \<open>The first-time flag\<close>

lemma first_time_flags_extend:
  assumes "map is_first_time (filter (\<lambda>r. member_id r = mid) rs) =
           (if length (filter (\<lambda>r. member_id r = mid) rs) = 0 then []
            else True # replicate (length (filter (\<lambda>r. member_id r = mid) rs) - 1) False)"
    and "is_first_time rec = (length (filter (\<lambda>r. member_id r = member_id rec) rs) = 0)"
  shows "map is_first_time (filter (\<lambda>r. member_id r = mid) (rs @ [rec])) =
           (if length (filter (\<lambda>r. member_id r = mid) (rs @ [rec])) = 0 then []
            else True # replicate (length (filter (\<lambda>r. member_id r = mid) (rs @ [rec])) - 1) False)"
proof (cases "member_id rec = mid")
  case False
  with assms(1) show ?thesis by simp
next
  case True
  show ?thesis
  proof (cases "length (filter (\<lambda>r. member_id r = mid) rs) = 0")
    case z: True
    with assms True show ?thesis by simp
  next
    case nz: False
    then obtain n where n: "length (filter (\<lambda>r. member_id r = mid) rs) = Suc n"
      by (cases "length (filter (\<lambda>r. member_id r = mid) rs)") auto
    with assms True show ?thesis
      by (simp add: replicate_append_same)
  qed
qed

lemma reachable_first_time_flags:
  "reachable st \<Longrightarrow>
   map is_first_time (filter (\<lambda>r. member_id r = mid) (allRecords st)) =
     (if countMemberAttendance st mid = 0 then []
      else True # replicate (countMemberAttendance st mid - 1) False)"
proof (induction arbitrary: mid rule: reachable.induct)
  case (empty fb)
  then show ?case
    by (simp add: countMemberAttendance_allRecords allRecords_def emptyStore_def Map_values_def)
next
  case (request st r)
  from step_records [of st r] show ?case
  proof (elim disjE exE conjE)
    assume "allRecords (fst (step st r)) = allRecords st"
    with request.IH [of mid] show ?thesis
      by (simp add: countMemberAttendance_allRecords)
  next
    fix rec
    assume recs: "allRecords (fst (step st r)) = allRecords st @ [rec]"
      and ft: "is_first_time rec = (countMemberAttendance st (member_id rec) = 0)"
    from first_time_flags_extend [of mid "allRecords st" rec] request.IH [of mid] ft
    show ?thesis
      unfolding countMemberAttendance_allRecords recs by simp
  qed
qed

text \<open>
  Claim C3.  In every store that sequential requests reach from an empty store, the
  attendance records of a member, read in the order of their creation, carry the
  first-time flags True, False, False, ...: the first record ever is flagged, no later
  one is.  A successful scan appends one record whose flag says whether the member had no
  record in the store before.
\<close>

theorem first_time_flag:
  "(reachable st \<longrightarrow>
      map is_first_time (filter (\<lambda>r. member_id r = mid) (allRecords st)) =
        (if countMemberAttendance st mid = 0 then []
         else True # replicate (countMemberAttendance st mid - 1) False)) \<and>
   (post_api_attendance st uuid now sid mid = (st', AttendanceMarked msg ft rid) \<longrightarrow>
      ft = (countMemberAttendance st mid = 0) \<and>
      allRecords st' =
        allRecords st @
          [\<lparr>r_id = uuid, session_id = sid, member_id = mid, is_first_time = ft,
            scan_time = now, is_present = True, marked_manually = None\<rparr>])"
proof -
  have "ft = (countMemberAttendance st mid = 0) \<and>
        allRecords st' =
          allRecords st @
            [\<lparr>r_id = uuid, session_id = sid, member_id = mid, is_first_time = ft,
              scan_time = now, is_present = True, marked_manually = None\<rparr>]"
    if ok: "post_api_attendance st uuid now sid mid = (st', AttendanceMarked msg ft rid)"
  proof -
    let ?r = "\<lparr>r_id = uuid, session_id = sid, member_id = mid, is_first_time = ft,
               scan_time = now, is_present = True, marked_manually = None\<rparr>"
    let ?st1 = "if ft then updateMemberFirstScan st now mid else st"
    from post_api_attendance_marked(5) [OF ok] obtain msgf failed
      where rec: "recordAttendance st uuid now sid mid None msgf failed =
                  (st', AttendanceMarked msg ft rid)" by blast
    note r = recordAttendance_marked [OF rec]
    from r(1) have "getAttendanceRecord ?st1 (session_id ?r) (member_id ?r) = None"
      by (simp add: updateMemberFirstScan_reads)
    from addAttendanceRecord_absent [OF this] r(4)
    have "allRecords st' = allRecords ?st1 @ [?r]" by auto
    with r(2) show ?thesis by (simp add: updateMemberFirstScan_reads)
  qed
  then show ?thesis
    using reachable_first_time_flags by blast
qed

theorem first_time_flag_witness:
  "map is_first_time
     (filter (\<lambda>r. member_id r = ''m1'')
        (allRecords
           (fst (step
              (fst (step
                 (fst (step fallbackExample (PostAttendance ''r1'' 10 ''s1'' ''m1'')))
                 (PostSession ''s2'' 11 ''2024-01-07'' ''https://host'' ''Evening Service'')))
              (PostAttendance ''r2'' 20 ''s2'' ''m1''))))) =
   [True, False]"
proof -
  let ?r1 = "\<lparr>r_id = ''r1'', session_id = ''s1'', member_id = ''m1'', is_first_time = True,
              scan_time = 10, is_present = True, marked_manually = None\<rparr>"
  let ?st1 = "fallbackExample
                \<lparr>fb_members := [(''m1'', ada\<lparr>first_scan_date := Some 10\<rparr>)],
                 fb_attendance := [(''s1-m1'', ?r1)]\<rparr>"
  let ?st2 = "?st1\<lparr>fb_sessions :=
                     [(''s1'', sunday\<lparr>is_active := 0\<rparr>),
                      (''s2'', \<lparr>s_id = ''s2'', session_name = ''Evening Service'',
                               session_date = ''2024-01-07'',
                               qr_data = ''https://host/scan/s2'', is_active = 1,
                               s_created_at = 11\<rparr>)],
                   activeSessionId := Some ''s2''\<rparr>"
  let ?st3 = "fst (step ?st2 (PostAttendance ''r2'' 20 ''s2'' ''m1''))"
  have s1: "fst (step fallbackExample (PostAttendance ''r1'' 10 ''s1'' ''m1'')) = ?st1"
    by (simp add: post_api_attendance_def recordAttendance_def getSession_def getMember_def
        getAttendanceRecord_def countMemberAttendance_def updateMemberFirstScan_def
        addAttendanceRecord_def attendanceKey_def Map_get_def Map_values_def
        fallbackExample_def ada_def sunday_def)
  have s2: "fst (step ?st1
              (PostSession ''s2'' 11 ''2024-01-07'' ''https://host'' ''Evening Service'')) = ?st2"
    by (simp add: post_api_sessions_def createSession_def fallbackExample_def Let_def)
  have count: "countMemberAttendance ?st3 ''m1'' = 2"
    by (simp add: post_api_attendance_def recordAttendance_def getSession_def getMember_def
        getAttendanceRecord_def countMemberAttendance_def updateMemberFirstScan_def
        addAttendanceRecord_def attendanceKey_def Map_get_def Map_values_def
        fallbackExample_def ada_def sunday_def)
  have "reachable ?st1"
    using reachable.request [OF reachable_fallbackExample,
        of "PostAttendance ''r1'' 10 ''s1'' ''m1''"]
    by (simp only: s1)
  from reachable.request [OF this,
      of "PostSession ''s2'' 11 ''2024-01-07'' ''https://host'' ''Evening Service''"]
  have "reachable ?st2" by (simp only: s2)
  then have "reachable ?st3" by (rule reachable.request)
  with first_time_flag [of ?st3 "''m1''"] count
  have "map is_first_time (filter (\<lambda>r. member_id r = ''m1'') (allRecords ?st3)) = [True, False]"
    by (simp add: numeral_2_eq_2)
  then show ?thesis by (simp only: s1 s2)
qed

section \<open>The first-scan date\<close>

lemma scanned_member_has_record:
  assumes "wf_store st" and "\<not> usingFallback st"
    and "getMember st mid = Some m" and "first_scan_date m \<noteq> None"
  shows "countMemberAttendance st mid \<noteq> 0"
proof -
  from assms(2,3) have "m \<in> set (db_members st)" "m_id m = mid"
    by (auto simp add: getMember_def find_Some_iff)
  with assms(1,2,4) have "mid \<in> set (map member_id (db_records st))"
    by (auto simp add: wf_store_def list_all_iff)
  with assms(2) show ?thesis
    by (auto simp add: countMemberAttendance_def filter_empty_conv)
qed

lemma first_scan_date_recordAttendance:
  assumes "wf_store st"
    and "getMember st mid = Some m"
    and "getMember (fst (recordAttendance st uuid now sid mid' manual msgf failed)) mid = Some m'"
  shows "(first_scan_date m = Some t \<longrightarrow> first_scan_date m' = Some t) \<and>
         (first_scan_date m = None \<and> first_scan_date m' \<noteq> None \<longrightarrow>
            mid' = mid \<and> first_scan_date m' = Some now \<and>
            countMemberAttendance st mid = 0 \<and>
            countMemberAttendance
              (fst (recordAttendance st uuid now sid mid' manual msgf failed)) mid = 1)"
proof (cases "getAttendanceRecord st sid mid' = None \<and> countMemberAttendance st mid' = 0")
  case False
  with assms(2,3) have "m' = m"
    by (simp add: getMember_recordAttendance)
  then show ?thesis by auto
next
  case True
  with assms(2,3) have m': "m' =
      (if mid = mid' \<and> (usingFallback st \<longrightarrow> first_scan_date m = None)
       then m\<lparr>first_scan_date := Some now\<rparr> else m)"
    by (simp add: getMember_recordAttendance getMember_updateMemberFirstScan)
  have kept: "first_scan_date m' = Some t" if t: "first_scan_date m = Some t"
  proof (cases "mid = mid' \<and> \<not> usingFallback st")
    case False
    with m' t show ?thesis by auto
  next
    case mongo: True
    with scanned_member_has_record [OF assms(1) _ assms(2)] t True show ?thesis
      by simp
  qed
  have set: "mid' = mid \<and> first_scan_date m' = Some now \<and>
            countMemberAttendance st mid = 0 \<and>
            countMemberAttendance
              (fst (recordAttendance st uuid now sid mid' manual msgf failed)) mid = 1"
    if "first_scan_date m = None" "first_scan_date m' \<noteq> None"
  proof -
    from that m' have eq: "mid = mid'" by (auto split: if_splits)
    with that m' have "first_scan_date m' = Some now" by (auto split: if_splits)
    with eq True countMemberAttendance_recordAttendance [of st sid mid uuid now manual msgf failed]
    show ?thesis by simp
  qed
  from kept set show ?thesis by blast
qed

text \<open>
  What does hold of the first-scan date.  Take a well-formed store, a member that is
  stored before and after a request, and a request that does not register a new member
  under the same identifier.  A date that the member has before the request is the one
  it has after it.  A date appears only through a \<open>markAttendance\<close> (scan or manual) for
  this member handled while the member has no attendance record; it is the time of that
  request, and the member has exactly one record afterwards.
\<close>

lemma first_scan_date_kept:
  assumes "wf_store st"
    and "getMember st mid = Some m"
    and "getMember (fst (step st r)) mid = Some m'"
    and "\<forall>now name email phone address. r \<noteq> PostMember mid now name email phone address"
  shows "(first_scan_date m = Some t \<longrightarrow> first_scan_date m' = Some t) \<and>
         (first_scan_date m = None \<and> first_scan_date m' \<noteq> None \<longrightarrow>
            (\<exists>uuid now sid.
               (r = PostAttendance uuid now sid mid \<or> r = PostAttendanceManual uuid now mid) \<and>
               first_scan_date m' = Some now) \<and>
            countMemberAttendance st mid = 0 \<and>
            countMemberAttendance (fst (step st r)) mid = 1)"
proof (cases r)
  case (PostMember uuid now name email phone address)
  with assms(4) have "uuid \<noteq> mid" by auto
  from getMember_post_api_members [OF assms(2) this] assms(3) PostMember
  have "m' = m" by simp
  then show ?thesis by auto
next
  case (DeleteMember ident)
  with assms(2,3) getMember_delete_api_members [OF assms(1), of ident mid]
  have "m' = m" by (auto split: if_splits)
  then show ?thesis by auto
next
  case (PostSession uuid now sessionDate baseUrl sessionName)
  with assms(2,3) have "m' = m" by (simp add: getMember_post_api_sessions)
  then show ?thesis by auto
next
  case (PostAttendance uuid now sid mid')
  from post_api_attendance_effect [of st uuid now sid mid'] show ?thesis
  proof (elim disjE exE)
    assume "fst (post_api_attendance st uuid now sid mid') = st"
    with PostAttendance assms(2,3) have "m' = m" by simp
    then show ?thesis by auto
  next
    fix msgf failed
    assume eq: "fst (post_api_attendance st uuid now sid mid') =
                fst (recordAttendance st uuid now sid mid' None msgf failed)"
    with PostAttendance assms(3)
    have "getMember (fst (recordAttendance st uuid now sid mid' None msgf failed)) mid = Some m'"
      by simp
    from first_scan_date_recordAttendance [OF assms(1,2) this, of t] PostAttendance eq
    show ?thesis by auto
  qed
next
  case (PostAttendanceManual uuid now mid')
  from post_api_attendance_manual_effect [of st uuid now mid'] show ?thesis
  proof (elim disjE exE)
    assume "fst (post_api_attendance_manual st uuid now mid') = st"
    with PostAttendanceManual assms(2,3) have "m' = m" by simp
    then show ?thesis by auto
  next
    fix sid msgf failed
    assume eq: "fst (post_api_attendance_manual st uuid now mid') =
                fst (recordAttendance st uuid now sid mid' (Some True) msgf failed)"
    with PostAttendanceManual assms(3)
    have "getMember (fst (recordAttendance st uuid now sid mid' (Some True) msgf failed)) mid =
            Some m'"
      by simp
    from first_scan_date_recordAttendance [OF assms(1,2) this, of t] PostAttendanceManual eq
    show ?thesis by auto
  qed
next
  case GetAttendanceCurrent
  with assms(2,3) have "m' = m" by simp
  then show ?thesis by auto
next
  case (GetSessionStats sessionId)
  with assms(2,3) have "m' = m" by simp
  then show ?thesis by auto
qed

text \<open>
  Claim C5.  The first-scan date is to be written once and never overwritten, and
  \<open>markAttendance\<close> is to write it only when it is not set yet.  The fallback branch of
  \<open>updateMemberFirstScan\<close> looks at the date first; the MongoDB branch does not.  In a
  MongoDB store where a member has a date and no attendance record (what a scan leaves
  when its insert fails after the date was written), the next scan overwrites the date:
  here 5 becomes 20, while the fallback keeps 5 in the same situation.
\<close>

theorem first_scan_date_overwritten:
  "getMember (mongoExample\<lparr>db_members := [ada\<lparr>first_scan_date := Some 5\<rparr>]\<rparr>) ''m1'' =
     Some (ada\<lparr>first_scan_date := Some 5\<rparr>) \<and>
   getMember
     (fst (post_api_attendance (mongoExample\<lparr>db_members := [ada\<lparr>first_scan_date := Some 5\<rparr>]\<rparr>)
             ''r1'' 20 ''s1'' ''m1'')) ''m1'' =
     Some (ada\<lparr>first_scan_date := Some 20\<rparr>) \<and>
   getMember
     (fst (post_api_attendance
             (fallbackExample\<lparr>fb_members := [(''m1'', ada\<lparr>first_scan_date := Some 5\<rparr>)]\<rparr>)
             ''r1'' 20 ''s1'' ''m1'')) ''m1'' =
     Some (ada\<lparr>first_scan_date := Some 5\<rparr>)"
  by (simp add: post_api_attendance_def recordAttendance_def getSession_def getMember_def
      getAttendanceRecord_def countMemberAttendance_def updateMemberFirstScan_def
      addAttendanceRecord_def insertOne_records_def attendanceKey_def Map_get_def
      Map_values_def mongoExample_def fallbackExample_def ada_def sunday_def)

section \<open>The attendance report\<close>

lemma sortByScanTimeDesc_props:
  "set (sortByScanTimeDesc rows) = set rows"
  "length (sortByScanTimeDesc rows) = length rows"
  "sorted_wrt (\<lambda>p q. p_scan_time q \<le> p_scan_time p) (sortByScanTimeDesc rows)"
proof -
  show "set (sortByScanTimeDesc rows) = set rows"
    by (simp add: sortByScanTimeDesc_def)
  show "length (sortByScanTimeDesc rows) = length rows"
    by (simp add: sortByScanTimeDesc_def)
  have "sorted (map (\<lambda>p. - int (p_scan_time p)) (sortByScanTimeDesc rows))"
    unfolding sortByScanTimeDesc_def by (rule sorted_sort_key)
  then show "sorted_wrt (\<lambda>p q. p_scan_time q \<le> p_scan_time p) (sortByScanTimeDesc rows)"
    by (simp add: sorted_map)
qed

lemma length_concat_joined:
  "length (concat (map (\<lambda>r. if P r then (case look r of None \<Rightarrow> [] | Some m \<Rightarrow> [proj m r]) else []) xs)) =
   length (filter (\<lambda>r. P r \<and> look r \<noteq> None) xs)"
  by (induction xs) (auto split: option.splits)

lemma mem_concat_joined:
  "p \<in> set (concat (map (\<lambda>r. if P r then (case look r of None \<Rightarrow> [] | Some m \<Rightarrow> [proj m r]) else []) xs)) \<longleftrightarrow>
   (\<exists>r \<in> set xs. P r \<and> (\<exists>m. look r = Some m \<and> p = proj m r))"
  by (auto split: option.splits if_splits) (metis, metis IntI mem_Collect_eq)

lemma joined_row_source:
  assumes "p \<in> set (concat (map (\<lambda>r. if P r then (case look r of None \<Rightarrow> [] | Some m \<Rightarrow> [proj m r]) else []) xs))"
  obtains r m where "r \<in> set xs" and "P r" and "look r = Some m" and "p = proj m r"
  using assms unfolding mem_concat_joined by blast

lemma length_concat_lookup:
  assumes "distinct (map key ms)"
  shows "length (concat (map (\<lambda>r. map (proj r) (filter (\<lambda>m. key m = fk r) ms)) xs)) =
         length (filter (\<lambda>r. find (\<lambda>m. key m = fk r) ms \<noteq> None) xs)"
  by (induction xs) (auto simp add: filter_by_distinct_key [OF assms] split: option.splits)

text \<open>
  Claim C7.  \<open>currentAttendanceReport\<close> always answers with a list, never with an error.
  Every row of the list carries the id of a member that resolves, so a record whose
  member id does not resolve has no row; every record of the active session whose member
  resolves has its row; and (member ids being distinct) there are exactly as many rows as
  records of the active session whose member resolves.
\<close>

theorem currentAttendanceReport_drops_unresolved:
  assumes "fallbackKeyed st"
  shows "\<exists>rows. get_api_attendance_current st = AttendanceList rows \<and>
           (\<forall>p \<in> set rows. getMember st (p_id p) \<noteq> None) \<and>
           (\<forall>a. getActiveSession st = Some a \<longrightarrow>
              (\<forall>r \<in> set (allRecords st). \<forall>m.
                 session_id r = s_id a \<and> getMember st (member_id r) = Some m \<longrightarrow>
                 (\<exists>p \<in> set rows. p_id p = m_id m \<and> p_name p = m_name m \<and>
                    p_scan_time p = scan_time r \<and> p_is_first_time p = is_first_time r)) \<and>
              (usingFallback st \<or> distinct (map m_id (db_members st)) \<longrightarrow>
                 length rows =
                   length (filter (\<lambda>r. session_id r = s_id a \<and>
                                        getMember st (member_id r) \<noteq> None) (allRecords st))))"
proof (cases "getActiveSession st")
  case None
  have "get_api_attendance_current st = AttendanceList []"
  proof (cases "usingFallback st")
    case True
    with None show ?thesis by (simp add: get_api_attendance_current_def)
  next
    case False
    with None have "find (\<lambda>s. is_active s = 1) (db_sessions st) = None"
      by (simp add: getActiveSession_def)
    with False show ?thesis by (simp add: get_api_attendance_current_def)
  qed
  with None show ?thesis by simp
next
  case (Some a)
  show ?thesis
  proof (cases "usingFallback st")
    case True
    let ?g = "\<lambda>r. if session_id r = s_id a
          then (case Map_get (member_id r) (fb_members st) of
                  None \<Rightarrow> []
                | Some m \<Rightarrow>
                    [\<lparr>p_id = m_id m, p_name = m_name m, p_email = m_email m,
                      p_phone = m_phone m, p_is_present = is_present r,
                      p_scan_time = scan_time r,
                      p_is_first_time = is_first_time r,
                      p_marked_manually =
                        Some (case marked_manually r of None \<Rightarrow> False | Some b \<Rightarrow> b)\<rparr>])
          else []"
    let ?rows0 = "concat (map ?g (Map_values (fb_attendance st)))"
    from True Some have res: "get_api_attendance_current st =
        AttendanceList (sortByScanTimeDesc ?rows0)"
      by (simp add: get_api_attendance_current_def)
    from True assms have keyed: "\<forall>(k, m) \<in> set (fb_members st). m_id m = k"
      by (simp add: fallbackKeyed_def list_all_iff)
    have resolves: "getMember st (p_id p) \<noteq> None" if "p \<in> set ?rows0" for p
    proof -
 from that
      obtain r m where "r \<in> set (Map_values (fb_attendance st))"
        and "session_id r = s_id a"
        and "Map_get (member_id r) (fb_members st) = Some m"
        and "p = \<lparr>p_id = m_id m, p_name = m_name m, p_email = m_email m,
                  p_phone = m_phone m, p_is_present = is_present r,
                  p_scan_time = scan_time r,
                  p_is_first_time = is_first_time r,
                  p_marked_manually =
                    Some (case marked_manually r of None \<Rightarrow> False | Some b \<Rightarrow> b)\<rparr>"
        by (rule joined_row_source)
      then have "Map_get (member_id r) (fb_members st) = Some m" and p: "p_id p = m_id m"
        by simp_all
      moreover from this(1) keyed have "m_id m = member_id r"
        by (auto dest!: Map_get_Some_mem)
      ultimately show ?thesis using True by (simp add: getMember_def)
    qed
    have present: "\<exists>p \<in> set ?rows0. p_id p = m_id m \<and> p_name p = m_name m \<and>
                    p_scan_time p = scan_time r \<and> p_is_first_time p = is_first_time r"
      if "r \<in> set (allRecords st)" "session_id r = s_id a"
        "getMember st (member_id r) = Some m" for r m
    proof -
      let ?p = "\<lparr>p_id = m_id m, p_name = m_name m, p_email = m_email m,
                 p_phone = m_phone m, p_is_present = is_present r,
                 p_scan_time = scan_time r,
                 p_is_first_time = is_first_time r,
                 p_marked_manually =
                   Some (case marked_manually r of None \<Rightarrow> False | Some b \<Rightarrow> b)\<rparr>"
      from that True have "?p \<in> set ?rows0"
        unfolding mem_concat_joined by (auto simp add: allRecords_def getMember_def)
      then show ?thesis by (intro bexI [of _ ?p]) simp_all
    qed
    have count: "length ?rows0 =
        length (filter (\<lambda>r. session_id r = s_id a \<and> getMember st (member_id r) \<noteq> None)
                  (allRecords st))"
      using True by (simp add: length_concat_joined allRecords_def getMember_def)
    from resolves present count show ?thesis
      unfolding res using Some by (auto simp add: sortByScanTimeDesc_props)
  next
    case False
    let ?proj = "\<lambda>r m. \<lparr>p_id = m_id m, p_name = m_name m, p_email = m_email m,
                         p_phone = m_phone m, p_is_present = is_present r,
                         p_scan_time = scan_time r,
                         p_is_first_time = is_first_time r,
                         p_marked_manually = marked_manually r\<rparr>"
    let ?recs = "filter (\<lambda>r. session_id r = s_id a) (db_records st)"
    let ?rows0 = "concat (map (\<lambda>r. map (?proj r)
                     (filter (\<lambda>m. m_id m = member_id r) (db_members st))) ?recs)"
    from False Some have res: "get_api_attendance_current st =
        AttendanceList (sortByScanTimeDesc ?rows0)"
      by (simp add: get_api_attendance_current_def getActiveSession_def)
    have resolves: "getMember st (p_id p) \<noteq> None" if "p \<in> set ?rows0" for p
      using that False by (auto simp add: getMember_def find_None_iff)
    have present: "\<exists>p \<in> set ?rows0. p_id p = m_id m \<and> p_name p = m_name m \<and>
                    p_scan_time p = scan_time r \<and> p_is_first_time p = is_first_time r"
      if "r \<in> set (allRecords st)" "session_id r = s_id a"
        "getMember st (member_id r) = Some m" for r m
    proof -
      from that(3) False have "m \<in> set (db_members st)" "m_id m = member_id r"
        by (auto simp add: getMember_def find_Some_iff)
      with that(1,2) False have "?proj r m \<in> set ?rows0"
        by (auto simp add: allRecords_def)
      then show ?thesis by (intro bexI [of _ "?proj r m"]) simp_all
    qed
    have count: "length ?rows0 =
        length (filter (\<lambda>r. session_id r = s_id a \<and> getMember st (member_id r) \<noteq> None)
                  (allRecords st))"
      if "distinct (map m_id (db_members st))"
      using False length_concat_lookup [OF that, of ?proj member_id ?recs]
      by (simp add: allRecords_def getMember_def conj_commute)
    from resolves present count False show ?thesis
      unfolding res using Some by (auto simp add: sortByScanTimeDesc_props)
  qed
qed

theorem currentAttendanceReport_drops_unresolved_witness:
  "\<exists>rows.
     get_api_attendance_current
       (fallbackExample
          \<lparr>fb_members := [(''m2'', ada\<lparr>m_id := ''m2'', m_name := ''Grace Hopper''\<rparr>)],
           fb_attendance :=
             [(''s1-m1'',
               \<lparr>r_id = ''r1'', session_id = ''s1'', member_id = ''m1'', is_first_time = True,
                scan_time = 10, is_present = True, marked_manually = None\<rparr>),
              (''s1-m2'',
               \<lparr>r_id = ''r2'', session_id = ''s1'', member_id = ''m2'', is_first_time = True,
                scan_time = 20, is_present = True, marked_manually = None\<rparr>)]\<rparr>) =
       AttendanceList rows \<and>
     length rows = 1 \<and> ''m1'' \<notin> p_id ` set rows"
proof -
  let ?st = "fallbackExample
          \<lparr>fb_members := [(''m2'', ada\<lparr>m_id := ''m2'', m_name := ''Grace Hopper''\<rparr>)],
           fb_attendance :=
             [(''s1-m1'',
               \<lparr>r_id = ''r1'', session_id = ''s1'', member_id = ''m1'', is_first_time = True,
                scan_time = 10, is_present = True, marked_manually = None\<rparr>),
              (''s1-m2'',
               \<lparr>r_id = ''r2'', session_id = ''s1'', member_id = ''m2'', is_first_time = True,
                scan_time = 20, is_present = True, marked_manually = None\<rparr>)]\<rparr>"
  have h1: "fallbackKeyed ?st"
    by (simp add: fallbackKeyed_def attendanceKey_def fallbackExample_def ada_def sunday_def)
  have act: "getActiveSession ?st = Some sunday"
    by (simp add: getActiveSession_def Map_get_def fallbackExample_def sunday_def)
  have gone: "getMember ?st ''m1'' = None"
    by (simp add: getMember_def Map_get_def fallbackExample_def)
  have cnt: "length (filter (\<lambda>r. session_id r = s_id sunday \<and>
                 getMember ?st (member_id r) \<noteq> None) (allRecords ?st)) = 1"
    by (simp add: allRecords_def Map_values_def getMember_def Map_get_def fallbackExample_def
        sunday_def)
  have fb: "usingFallback ?st"
    by (simp add: fallbackExample_def)
  from currentAttendanceReport_drops_unresolved [OF h1] obtain rows
    where rows: "get_api_attendance_current ?st = AttendanceList rows"
      and res: "\<forall>p \<in> set rows. getMember ?st (p_id p) \<noteq> None"
      and len: "\<forall>a. getActiveSession ?st = Some a \<longrightarrow>
              (usingFallback ?st \<or> distinct (map m_id (db_members ?st)) \<longrightarrow>
                 length rows =
                   length (filter (\<lambda>r. session_id r = s_id a \<and>
                                        getMember ?st (member_id r) \<noteq> None) (allRecords ?st)))"
    by blast
  from len act fb cnt have "length rows = 1" by simp
  moreover from res gone have "''m1'' \<notin> p_id ` set rows" by auto
  ultimately show ?thesis using rows by blast
qed



end
